theory Spec2Isabelle
  imports Main
begin

section \<open>Tables\<close>

text \<open>
  The two merger scripts (\<^verbatim>\<open>merge_nhanes_any_batched.py\<close> and \<^verbatim>\<open>merge_nhanes_files.py\<close>)
  work on pandas data frames. A frame is modelled as the ordered list of its columns; a
  column carries its name, its storage type and its values. A cell is a logical value:
  missing (NaN / None), an integer, a float, a boolean or a string. The type of floats is a
  parameter \<open>'f\<close>, standing for the non-NaN float64 values.

  The storage types are those the readers produce and the optimizer makes of them (signed
  integers, floats, bool, object, category); unsigned, datetime and extension types are
  left out. Column names are looked up by name as pandas does; the statements that need
  the names of a frame to be different say so. Two keys are the same key when they are the
  same value, a missing key being equal to a missing key; the conversion pandas applies
  when one key column holds integers and the other floats is left out.
\<close>

datatype 'f cell = NA | IntV int | FltV 'f | BoolV bool | StrV string

datatype dtype = Int8 | Int16 | Int32 | Int64 | Float32 | Float64 | Bool | Object | Category

record 'f column =
  cname :: string
  ctype :: dtype
  cvals :: "'f cell list"

type_synonym 'f frame = "'f column list"

text \<open>
  What the scripts take from pandas, numpy and pyarrow and what cannot be written down
  here (floating point, the sorting algorithm, the Parquet encoding) is a parameter:
  \<^item> \<open>astype_f32\<close>: the value of a float64 after \<^verbatim>\<open>astype(float32)\<close>;
  \<^item> \<open>close32\<close>: the closeness test \<^verbatim>\<open>np.allclose\<close> applies to such a pair;
  \<^item> \<open>str_float\<close>: Python's \<^verbatim>\<open>str\<close> of a float;
  \<^item> \<open>float_le\<close>: the order of floats;
  \<^item> \<open>argsort\<close>: the row order \<^verbatim>\<open>sort_values\<close> computes from a key column (numpy's
    quicksort, which is not stable), \<open>None\<close> when the keys cannot be compared (TypeError);
  \<^item> \<open>to_parquet\<close>, \<open>read_parquet\<close>: the Parquet writer and reader, \<open>'b\<close> the file contents.
\<close>

record ('f, 'b) pandas =
  astype_f32 :: "'f \<Rightarrow> 'f"
  close32 :: "'f \<Rightarrow> 'f \<Rightarrow> bool"
  str_float :: "'f \<Rightarrow> string"
  float_le :: "'f \<Rightarrow> 'f \<Rightarrow> bool"
  argsort :: "'f cell list \<Rightarrow> nat list option"
  to_parquet :: "'f frame \<Rightarrow> 'b"
  read_parquet :: "'b \<Rightarrow> 'f frame"

definition column :: "'f frame \<Rightarrow> string \<Rightarrow> 'f column option" where
  "column df n = find (\<lambda>c. cname c = n) df"

definition columns :: "'f frame \<Rightarrow> string list" where
  "columns df = map cname df"

text \<open>\<^verbatim>\<open>len(df)\<close>: every column of a data frame has the same length.\<close>

definition nrows :: "'f frame \<Rightarrow> nat" where
  "nrows df = (case df of [] \<Rightarrow> 0 | c # _ \<Rightarrow> length (cvals c))"

definition rect :: "'f frame \<Rightarrow> bool" where
  "rect df = list_all (\<lambda>c. length (cvals c) = nrows df) df"

definition key_vals :: "'f frame \<Rightarrow> 'f cell list" where
  "key_vals df = (case column df ''SEQN'' of Some c \<Rightarrow> cvals c | None \<Rightarrow> [])"


section \<open>Schema optimizer: \<^verbatim>\<open>optimize_dtypes\<close>\<close>

fun itemsize :: "dtype \<Rightarrow> nat" where
  "itemsize Int8 = 1"
| "itemsize Int16 = 2"
| "itemsize Int32 = 4"
| "itemsize Int64 = 8"
| "itemsize Float32 = 4"
| "itemsize Float64 = 8"
| "itemsize Bool = 1"
| "itemsize Object = 8"
| "itemsize Category = 8"

fun is_float_dtype :: "dtype \<Rightarrow> bool" where
  "is_float_dtype Float32 = True"
| "is_float_dtype Float64 = True"
| "is_float_dtype _ = False"

fun is_integer_dtype :: "dtype \<Rightarrow> bool" where
  "is_integer_dtype Int8 = True"
| "is_integer_dtype Int16 = True"
| "is_integer_dtype Int32 = True"
| "is_integer_dtype Int64 = True"
| "is_integer_dtype _ = False"

text \<open>A cell survives \<^verbatim>\<open>astype\<close> to the signed integer type \<open>t\<close> unchanged.\<close>

fun int_fits :: "dtype \<Rightarrow> 'f cell \<Rightarrow> bool" where
  "int_fits t (IntV n) = (- (2 ^ (8 * itemsize t - 1)) \<le> n \<and> n < 2 ^ (8 * itemsize t - 1))"
| "int_fits t _ = False"

text \<open>
  \<^verbatim>\<open>pd.to_numeric(col, errors="coerce", downcast="integer")\<close> on an integer column: the
  signed types are tried from the narrowest, none wider than the column's own; the first
  one that is the column's type or holds every value is taken (an empty column takes the
  first).
\<close>

definition downcast_integer :: "'f column \<Rightarrow> 'f column" where
  "downcast_integer c =
     (case find (\<lambda>t. itemsize t \<le> itemsize (ctype c) \<and>
                      (t = ctype c \<or> list_all (int_fits t) (cvals c)))
                [Int8, Int16, Int32, Int64] of
        Some t \<Rightarrow> c\<lparr>ctype := t\<rparr>
      | None \<Rightarrow> c)"

text \<open>
  \<^verbatim>\<open>pd.to_numeric(col, errors="coerce", downcast="float")\<close> on a float column: a float64
  column becomes float32 when every value stays close to itself (NaN equal to NaN); a
  float32 column stays.
\<close>

fun cast_f32 :: "('f, 'b) pandas \<Rightarrow> 'f cell \<Rightarrow> 'f cell" where
  "cast_f32 lib (FltV x) = FltV (astype_f32 lib x)"
| "cast_f32 lib v = v"

fun stays_close :: "('f, 'b) pandas \<Rightarrow> 'f cell \<Rightarrow> bool" where
  "stays_close lib (FltV x) = close32 lib (astype_f32 lib x) x"
| "stays_close lib v = True"

definition downcast_float :: "('f, 'b) pandas \<Rightarrow> 'f column \<Rightarrow> 'f column" where
  "downcast_float lib c =
     (if ctype c = Float64 \<and> list_all (stays_close lib) (cvals c)
      then c\<lparr>ctype := Float32, cvals := map (cast_f32 lib) (cvals c)\<rparr>
      else c)"

text \<open>\<^verbatim>\<open>col.nunique(dropna=True)\<close>\<close>

definition nunique :: "'f cell list \<Rightarrow> nat" where
  "nunique vs = length (remdups (filter (\<lambda>v. v \<noteq> NA) vs))"

text \<open>
  One round of the loop body of \<^verbatim>\<open>optimize_dtypes\<close>, for a column other than SEQN.
  \<open>cat_ratio\<close> is the fraction \<open>num / den\<close>; the scripts only ever use the defaults
  \<^verbatim>\<open>max_cat=200, cat_ratio=0.5\<close>.
\<close>

definition optimize_column :: "('f, 'b) pandas \<Rightarrow> nat \<Rightarrow> nat \<times> nat \<Rightarrow> 'f column \<Rightarrow> 'f column" where
  "optimize_column lib max_cat cat_ratio c =
     (if is_float_dtype (ctype c) then downcast_float lib c
      else if is_integer_dtype (ctype c) then downcast_integer c
      else if ctype c = Object then
        (if nunique (cvals c) \<le> max_cat \<and>
            nunique (cvals c) * snd cat_ratio \<le> fst cat_ratio * length (cvals c)
         then c\<lparr>ctype := Category\<rparr> else c)
      else c)"

definition optimize_dtypes :: "('f, 'b) pandas \<Rightarrow> 'f frame \<Rightarrow> 'f frame" where
  "optimize_dtypes lib df =
     map (\<lambda>c. if cname c = ''SEQN'' then c else optimize_column lib 200 (1, 2) c) df"


section \<open>Column namespacer: \<^verbatim>\<open>suffix_non_key\<close>\<close>

definition suffix_non_key :: "'f frame \<Rightarrow> string \<Rightarrow> 'f frame" where
  "suffix_non_key df component =
     map (\<lambda>c. if cname c \<noteq> ''SEQN'' then c\<lparr>cname := cname c @ ''__'' @ component\<rparr> else c) df"


section \<open>Strings\<close>

text \<open>File and column names are taken to be ASCII; a \<open>char\<close> is one byte.\<close>

definition lower_char :: "char \<Rightarrow> char" where
  "lower_char c = (let n = (of_char c :: nat) in if 65 \<le> n \<and> n \<le> 90 then char_of (n + 32) else c)"

definition upper_char :: "char \<Rightarrow> char" where
  "upper_char c = (let n = (of_char c :: nat) in if 97 \<le> n \<and> n \<le> 122 then char_of (n - 32) else c)"

definition lower :: "string \<Rightarrow> string" where
  "lower s = map lower_char s"

definition upper :: "string \<Rightarrow> string" where
  "upper s = map upper_char s"

text \<open>Whitespace as \<^verbatim>\<open>str.strip()\<close> and the pattern \<^verbatim>\<open>\s\<close> see it.\<close>

definition is_space :: "char \<Rightarrow> bool" where
  "is_space c = ((of_char c :: nat) \<in> {9, 10, 11, 12, 13, 28, 29, 30, 31, 32})"

definition strip :: "string \<Rightarrow> string" where
  "strip s = rev (dropWhile is_space (rev (dropWhile is_space s)))"

definition startswith :: "string \<Rightarrow> string \<Rightarrow> bool" where
  "startswith s p = (take (length p) s = p)"

definition endswith :: "string \<Rightarrow> string \<Rightarrow> bool" where
  "endswith s p = (length p \<le> length s \<and> drop (length s - length p) s = p)"

text \<open>\<^verbatim>\<open>sub in s\<close>\<close>

fun contains :: "string \<Rightarrow> string \<Rightarrow> bool" where
  "contains sub [] = (sub = [])"
| "contains sub (c # cs) = (startswith (c # cs) sub \<or> contains sub cs)"

text \<open>\<^verbatim>\<open>sep.join(xs)\<close>\<close>

fun join :: "string \<Rightarrow> string list \<Rightarrow> string" where
  "join sep [] = []"
| "join sep [x] = x"
| "join sep (x # y # ys) = x @ sep @ join sep (y # ys)"

text \<open>\<^verbatim>\<open>str(n)\<close> of an integer\<close>

fun str_nat :: "nat \<Rightarrow> string" where
  "str_nat n = (if n < 10 then [char_of (48 + n)] else str_nat (n div 10) @ [char_of (48 + n mod 10)])"

definition str_int :: "int \<Rightarrow> string" where
  "str_int i = (if i < 0 then CHR ''-'' # str_nat (nat (- i)) else str_nat (nat i))"

text \<open>
  \<^verbatim>\<open>re.sub(suffix + "$", "", s)\<close> for a literal suffix: \<^verbatim>\<open>$\<close> matches at the end of the
  string and also just before a newline that ends it.
\<close>

definition re_sub_at_end :: "string \<Rightarrow> string \<Rightarrow> string" where
  "re_sub_at_end suffix s =
     (if endswith s suffix then take (length s - length suffix) s
      else if endswith s (suffix @ [CHR 0x0A]) then take (length s - length suffix - 1) s @ [CHR 0x0A]
      else s)"

text \<open>\<^verbatim>\<open>re.sub(r"\s+", "_", s)\<close>\<close>

function collapse_spaces :: "string \<Rightarrow> string" where
  "collapse_spaces [] = []"
| "collapse_spaces (c # cs) =
     (if is_space c then CHR ''_'' # collapse_spaces (dropWhile is_space cs)
      else c # collapse_spaces cs)"
  by pat_completeness auto
termination
  by (relation "measure length") (auto simp: length_dropWhile_le le_imp_less_Suc)

definition component_from_filename :: "string \<Rightarrow> string" where
  "component_from_filename st =
     (let s = lower st;
          s = re_sub_at_end ''_clean'' s;
          s = re_sub_at_end ''_unclean'' s
      in collapse_spaces (strip s))"


section \<open>Component loader: \<^verbatim>\<open>read_any\<close>\<close>

datatype error =
    ValueError string
  | ReaderError string
  | TypeError string
  | KeyError string
  | MergeError string
  | AttributeError string
  | FileNotFoundError
  | SysExit string
  | SysExitCode nat

text \<open>
  A source file: the attributes of its \<^verbatim>\<open>Path\<close> and what the pandas reader
  (\<^verbatim>\<open>read_csv\<close>, \<^verbatim>\<open>read_excel\<close>) makes of its contents, a frame or an exception.
\<close>

record 'f source_file =
  fname :: string
  fstem :: string
  fsuffix :: string
  parsed :: "error + 'f frame"

definition vals :: "'f frame \<Rightarrow> string \<Rightarrow> 'f cell list" where
  "vals df n = (case column df n of Some c \<Rightarrow> cvals c | None \<Rightarrow> [])"

text \<open>\<^verbatim>\<open>df.columns = [str(c).strip().upper() for c in df.columns]\<close>\<close>

definition normalize_columns :: "'f frame \<Rightarrow> 'f frame" where
  "normalize_columns df = map (\<lambda>c. c\<lparr>cname := upper (strip (cname c))\<rparr>) df"

definition isna_all :: "'f column \<Rightarrow> bool" where
  "isna_all c = list_all (\<lambda>v. v = NA) (cvals c)"

text \<open>The list \<^verbatim>\<open>drop_cols\<close> and \<^verbatim>\<open>df.drop(columns=drop_cols)\<close>\<close>

definition drop_cols :: "'f frame \<Rightarrow> string list" where
  "drop_cols df = map cname (filter (\<lambda>c. cname c \<noteq> ''SEQN'' \<and> isna_all c) df)"

definition drop_columns :: "'f frame \<Rightarrow> string list \<Rightarrow> 'f frame" where
  "drop_columns df ns = filter (\<lambda>c. cname c \<notin> set ns) df"

text \<open>\<^verbatim>\<open>df[[n1, n2]]\<close>\<close>

definition select :: "'f frame \<Rightarrow> string list \<Rightarrow> 'f frame" where
  "select df ns = concat (map (\<lambda>n. filter (\<lambda>c. cname c = n) df) ns)"

text \<open>Rows chosen by a boolean mask, and rows taken in the order of an index list.\<close>

definition keep_rows :: "bool list \<Rightarrow> 'f frame \<Rightarrow> 'f frame" where
  "keep_rows keep df = map (\<lambda>c. c\<lparr>cvals := map snd (filter fst (zip keep (cvals c)))\<rparr>) df"

definition take_rows :: "nat list \<Rightarrow> 'f frame \<Rightarrow> 'f frame" where
  "take_rows idx df = map (\<lambda>c. c\<lparr>cvals := map (\<lambda>i. cvals c ! i) idx\<rparr>) df"

text \<open>\<^verbatim>\<open>df.dropna(subset=[n])\<close>\<close>

definition dropna :: "'f frame \<Rightarrow> string \<Rightarrow> 'f frame" where
  "dropna df n = keep_rows (map (\<lambda>v. v \<noteq> NA) (vals df n)) df"

text \<open>\<^verbatim>\<open>df[n] = df[n].astype(str)\<close>\<close>

fun py_str :: "('f, 'b) pandas \<Rightarrow> 'f cell \<Rightarrow> string" where
  "py_str lib NA = ''nan''"
| "py_str lib (IntV i) = str_int i"
| "py_str lib (FltV x) = str_float lib x"
| "py_str lib (BoolV b) = (if b then ''True'' else ''False'')"
| "py_str lib (StrV s) = s"

definition astype_str :: "('f, 'b) pandas \<Rightarrow> 'f frame \<Rightarrow> string \<Rightarrow> 'f frame" where
  "astype_str lib df n =
     map (\<lambda>c. if cname c = n then c\<lparr>ctype := Object, cvals := map (\<lambda>v. StrV (py_str lib v)) (cvals c)\<rparr>
               else c) df"

text \<open>
  The order in which \<^verbatim>\<open>groupby\<close> lists its group keys: ascending. Keys of one column are of
  one kind; across kinds the order below goes by kind.
\<close>

fun str_le :: "string \<Rightarrow> string \<Rightarrow> bool" where
  "str_le [] t = True"
| "str_le (c # s) [] = False"
| "str_le (c # s) (d # t) =
     ((of_char c :: nat) < of_char d \<or> ((of_char c :: nat) = of_char d \<and> str_le s t))"

fun kind :: "'f cell \<Rightarrow> nat" where
  "kind (BoolV b) = 0"
| "kind (IntV i) = 1"
| "kind (FltV x) = 2"
| "kind (StrV s) = 3"
| "kind NA = 4"

fun key_le :: "('f, 'b) pandas \<Rightarrow> 'f cell \<Rightarrow> 'f cell \<Rightarrow> bool" where
  "key_le lib (IntV i) (IntV j) = (i \<le> j)"
| "key_le lib (FltV x) (FltV y) = float_le lib x y"
| "key_le lib (StrV s) (StrV t) = str_le s t"
| "key_le lib (BoolV a) (BoolV b) = (b \<or> a = b)"
| "key_le lib a b = (kind a \<le> kind b)"

fun insert_sorted :: "('a \<Rightarrow> 'a \<Rightarrow> bool) \<Rightarrow> 'a \<Rightarrow> 'a list \<Rightarrow> 'a list" where
  "insert_sorted le x [] = [x]"
| "insert_sorted le x (y # ys) = (if le x y then x # y # ys else y # insert_sorted le x ys)"

definition sort_keys :: "('f, 'b) pandas \<Rightarrow> 'f cell list \<Rightarrow> 'f cell list" where
  "sort_keys lib ks = foldr (insert_sorted (key_le lib)) ks []"

text \<open>After \<^verbatim>\<open>astype(str)\<close> every value of the column is a string.\<close>

fun str_val :: "'f cell \<Rightarrow> string" where
  "str_val (StrV s) = s"
| "str_val v = []"

text \<open>
  \<^verbatim>\<open>df.groupby("SEQN")["RXDDRUG"].agg(lambda x: ', '.join(x)).reset_index()\<close>: rows with a
  missing key belong to no group; the groups come in ascending key order; inside a group
  the values keep the order of the rows.
\<close>

definition groupby_join :: "('f, 'b) pandas \<Rightarrow> 'f frame \<Rightarrow> 'f frame" where
  "groupby_join lib df =
     (let rows = filter (\<lambda>(k, v). k \<noteq> NA) (zip (vals df ''SEQN'') (vals df ''RXDDRUG''));
          gkeys = sort_keys lib (remdups (map fst rows))
      in [\<lparr>cname = ''SEQN'',
           ctype = (case column df ''SEQN'' of Some c \<Rightarrow> ctype c | None \<Rightarrow> Object),
           cvals = gkeys\<rparr>,
          \<lparr>cname = ''RXDDRUG'', ctype = Object,
           cvals = map (\<lambda>k. StrV (join '', '' (map (str_val \<circ> snd) (filter (\<lambda>(k', v). k' = k) rows))))
                       gkeys\<rparr>])"

definition is_meds_file :: "string \<Rightarrow> bool" where
  "is_meds_file nm = (contains ''medication'' nm \<or> contains ''rxq'' nm \<or> contains ''rx_'' nm)"

definition aggregate_meds :: "('f, 'b) pandas \<Rightarrow> 'f frame \<Rightarrow> 'f frame" where
  "aggregate_meds lib df =
     (let df = select df [''SEQN'', ''RXDDRUG''];
          df = dropna df ''RXDDRUG'';
          df = astype_str lib df ''RXDDRUG''
      in groupby_join lib df)"

text \<open>
  \<^verbatim>\<open>drop_duplicates(subset=["SEQN"], keep="first")\<close>: the mask of the rows whose key has not
  occurred in an earlier row.
\<close>

fun first_seen :: "'a list \<Rightarrow> 'a list \<Rightarrow> bool list" where
  "first_seen seen [] = []"
| "first_seen seen (k # ks) = (k \<notin> set seen) # first_seen (k # seen) ks"

definition drop_duplicates :: "'f frame \<Rightarrow> 'f frame" where
  "drop_duplicates df = keep_rows (first_seen [] (key_vals df)) df"

text \<open>\<^verbatim>\<open>df.sort_values("SEQN")\<close>\<close>

definition sort_values :: "('f, 'b) pandas \<Rightarrow> 'f frame \<Rightarrow> error + 'f frame" where
  "sort_values lib df =
     (case argsort lib (key_vals df) of
        None \<Rightarrow> Inl (TypeError ''not supported between instances'')
      | Some p \<Rightarrow> Inr (take_rows p df))"

text \<open>
  The statement both scripts end the loader with:
  \<^verbatim>\<open>if df.duplicated(subset=["SEQN"]).any(): df = df.sort_values("SEQN").drop_duplicates(...)\<close>
\<close>

definition dedup :: "('f, 'b) pandas \<Rightarrow> 'f frame \<Rightarrow> error + 'f frame" where
  "dedup lib df =
     (if \<not> distinct (key_vals df) then
        (case sort_values lib df of Inl e \<Rightarrow> Inl e | Inr s \<Rightarrow> Inr (drop_duplicates s))
      else Inr df)"

text \<open>
  The part of \<^verbatim>\<open>read_any\<close> that the two scripts share: reading, normalizing, dropping.
  When a name other than SEQN occurs twice after the normalization, \<^verbatim>\<open>df[c]\<close> is a frame and
  not a column, and the test \<^verbatim>\<open>c != "SEQN" and df[c].isna().all()\<close> of the list of empty
  columns raises \<^verbatim>\<open>ValueError: The truth value of a Series is ambiguous\<close>.
\<close>

definition read_table :: "'f source_file \<Rightarrow> error + 'f frame" where
  "read_table f =
     (let ext = lower (fsuffix f) in
      if ext = ''.csv'' then parsed f
      else if ext = ''.xlsx'' \<or> ext = ''.xls'' then parsed f
      else Inl (ValueError (''Unsupported file type: '' @ ext)))"

definition load_columns :: "'f source_file \<Rightarrow> error + 'f frame" where
  "load_columns f =
     (case read_table f of
        Inl e \<Rightarrow> Inl e
      | Inr raw \<Rightarrow>
          (let df = normalize_columns raw in
           if ''SEQN'' \<notin> set (columns df) then Inl (ValueError (fname f @ '': No SEQN column found.''))
           else if \<not> distinct (filter (\<lambda>n. n \<noteq> ''SEQN'') (columns df))
           then Inl (ValueError ''The truth value of a Series is ambiguous'')
           else Inr (if drop_cols df \<noteq> [] then drop_columns df (drop_cols df) else df)))"

text \<open>\<^verbatim>\<open>read_any\<close> of \<^verbatim>\<open>merge_nhanes_any_batched.py\<close>\<close>

definition read_any_batched :: "('f, 'b) pandas \<Rightarrow> 'f source_file \<Rightarrow> error + 'f frame" where
  "read_any_batched lib f =
     (case load_columns f of Inl e \<Rightarrow> Inl e | Inr df \<Rightarrow> dedup lib df)"

text \<open>\<^verbatim>\<open>read_any\<close> of \<^verbatim>\<open>merge_nhanes_files.py\<close>, with the medication path\<close>

definition read_any_files :: "('f, 'b) pandas \<Rightarrow> 'f source_file \<Rightarrow> error + 'f frame" where
  "read_any_files lib f =
     (case load_columns f of
        Inl e \<Rightarrow> Inl e
      | Inr df \<Rightarrow>
          if is_meds_file (lower (fname f)) \<and> ''RXDDRUG'' \<in> set (columns df)
          then Inr (aggregate_meds lib df)
          else dedup lib df)"


section \<open>Left join: \<^verbatim>\<open>accumulator.merge(df, on="SEQN", how="left")\<close>\<close>

text \<open>
  Keys are matched by equality of their values, a missing key matching a missing key, as
  pandas does. Each left row is paired with every right row of its key, in the order of
  the left rows; a left row without a partner is kept once, with missing values on the
  right.
\<close>

definition matches :: "'a \<Rightarrow> 'a list \<Rightarrow> nat list" where
  "matches k rks = filter (\<lambda>j. rks ! j = k) [0..<length rks]"

definition join_pairs :: "'a list \<Rightarrow> 'a list \<Rightarrow> (nat \<times> nat option) list" where
  "join_pairs lks rks =
     concat (map (\<lambda>i. case matches (lks ! i) rks of
                          [] \<Rightarrow> [(i, None)]
                        | js \<Rightarrow> map (\<lambda>j. (i, Some j)) js)
                 [0..<length lks])"

text \<open>
  pandas refuses to join an object column of strings with a numeric column
  (\<^verbatim>\<open>ValueError: You are trying to merge on int64 and object columns\<close>): one key column
  has type object and holds strings (kind 3), possibly with missing values (kind 4), and
  nothing else, the other has an integer or float type. This is the one exception of
  \<^verbatim>\<open>merge\<close> that is written down here; every other pair of key columns is joined.
\<close>

definition holds_strings :: "'f column \<Rightarrow> bool" where
  "holds_strings c =
     (ctype c = Object \<and> list_ex (\<lambda>v. kind v = 3) (cvals c) \<and>
      list_all (\<lambda>v. kind v = 3 \<or> kind v = 4) (cvals c))"

definition is_numeric_column :: "'f column \<Rightarrow> bool" where
  "is_numeric_column c = (is_integer_dtype (ctype c) \<or> is_float_dtype (ctype c))"

definition keys_incompatible :: "'f column \<Rightarrow> 'f column \<Rightarrow> bool" where
  "keys_incompatible lk rk =
     ((holds_strings lk \<and> is_numeric_column rk) \<or> (is_numeric_column lk \<and> holds_strings rk))"

text \<open>The storage type of a right column once missing values have entered it.\<close>

definition na_dtype :: "dtype \<Rightarrow> dtype" where
  "na_dtype d = (if is_integer_dtype d then Float64 else if d = Bool then Object else d)"

text \<open>
  Non-key columns of one name on both sides get the suffixes \<^verbatim>\<open>_x\<close> and \<^verbatim>\<open>_y\<close>
  (the default \<^verbatim>\<open>suffixes\<close> of \<^verbatim>\<open>merge\<close>). The result has the left columns, the key among
  them, and then the right columns other than the key.
\<close>

definition overlap :: "'f frame \<Rightarrow> 'f frame \<Rightarrow> string list" where
  "overlap left right = filter (\<lambda>n. n \<noteq> ''SEQN'' \<and> n \<in> set (columns right)) (columns left)"

definition left_part :: "string list \<Rightarrow> (nat \<times> nat option) list \<Rightarrow> 'f column \<Rightarrow> 'f column" where
  "left_part ov pairs c =
     c\<lparr>cname := (if cname c \<in> set ov then cname c @ ''_x'' else cname c),
       cvals := map (\<lambda>(i, j). cvals c ! i) pairs\<rparr>"

definition right_part :: "string list \<Rightarrow> (nat \<times> nat option) list \<Rightarrow> 'f column \<Rightarrow> 'f column" where
  "right_part ov pairs c =
     c\<lparr>cname := (if cname c \<in> set ov then cname c @ ''_y'' else cname c),
       ctype := (if list_ex (\<lambda>(i, j). j = None) pairs then na_dtype (ctype c) else ctype c),
       cvals := map (\<lambda>(i, j). case j of None \<Rightarrow> NA | Some j' \<Rightarrow> cvals c ! j') pairs\<rparr>"

text \<open>
  pandas refuses the renaming when a suffix makes a label that its side already has
  (\<^verbatim>\<open>MergeError: Passing 'suffixes' which cause duplicate columns ... is not allowed\<close>). The
  test of \<^verbatim>\<open>_items_overlap_with_suffix\<close> is made for the left labels and for the right labels
  apart: \<^verbatim>\<open>llabels[llabels.duplicated() & ~left.duplicated()]\<close>, the renamed labels that repeat
  an earlier label of their side at a place where the label before the renaming did not.
  The labels of the two sides are not compared with each other.
\<close>

definition duplicated :: "'a list \<Rightarrow> bool list" where
  "duplicated xs = map Not (first_seen [] xs)"

definition suffix_dups :: "string list \<Rightarrow> string list \<Rightarrow> string list" where
  "suffix_dups old new =
     map fst (filter (\<lambda>(n, dup_new, dup_old). dup_new \<and> \<not> dup_old)
                (zip new (zip (duplicated new) (duplicated old))))"

text \<open>
  The join itself. The key columns are tested first, then the rows are paired and the
  labels renamed. A key column of integers and one of floats are joined by the same
  equality of cells as every other pair: the conversion of the integer keys to float64
  that pandas makes for such a pair is not written down, so that here an integer key and
  a float key are never the same key.
\<close>

definition merge :: "'f frame \<Rightarrow> 'f frame \<Rightarrow> error + 'f frame" where
  "merge left right =
     (case (column left ''SEQN'', column right ''SEQN'') of
        (Some lk, Some rk) \<Rightarrow>
          if keys_incompatible lk rk
          then Inl (ValueError ''You are trying to merge on incompatible key columns'')
          else
            (let pairs = join_pairs (cvals lk) (cvals rk);
                 ov = overlap left right;
                 rest = filter (\<lambda>c. cname c \<noteq> ''SEQN'') right;
                 lpart = map (left_part ov pairs) left;
                 rpart = map (right_part ov pairs) rest
             in if suffix_dups (columns left) (columns lpart) @
                   suffix_dups (columns rest) (columns rpart) \<noteq> []
                then Inl (MergeError ''Passing suffixes which cause duplicate columns is not allowed'')
                else Inr (lpart @ rpart))
      | _ \<Rightarrow> Inl (KeyError ''SEQN''))"


section \<open>Accumulator engine: the loop of \<^verbatim>\<open>main\<close>\<close>

record report_row =
  rcomponent :: string
  rfile :: string
  rrows :: nat
  rcols :: nat

text \<open>
  The state of a run: the accumulator in memory, the rows of the report, the warnings
  printed for skipped files, and the four files a run writes: the checkpoint
  \<^verbatim>\<open>tmp_parquet\<close>, the final table \<^verbatim>\<open>out_parquet\<close>, the optional CSV and the merge report.
\<close>

record ('f, 'b) state =
  accumulator :: "'f frame option"
  report_rows :: "report_row list"
  warnings :: "(string \<times> error) list"
  tmp_parquet :: "'b option"
  out_parquet :: "'b option"
  out_csv :: "'f frame option"
  merge_report :: "report_row list option"

text \<open>
  One round of the \<^verbatim>\<open>for\<close> loop, the same in both scripts but for the loader \<open>rd\<close>. Only
  the call of the loader stands inside \<^verbatim>\<open>try\<close>; an exception raised later leaves the loop
  and ends the run, with the state reached so far. The write of the checkpoint is taken
  to succeed: of the exceptions of the Parquet writer only the one for a repeated column
  name is written down, and it is written down at the final write of \<^verbatim>\<open>main\<close>, which every
  table of a run that ends well has to pass.
\<close>

definition loop_body ::
  "(('f, 'b) pandas \<Rightarrow> 'f source_file \<Rightarrow> error + 'f frame) \<Rightarrow> ('f, 'b) pandas \<Rightarrow>
   'f source_file \<Rightarrow> ('f, 'b) state \<Rightarrow> (error \<times> ('f, 'b) state) + ('f, 'b) state" where
  "loop_body rd lib f st =
     (let comp = component_from_filename (fstem f) in
      case rd lib f of
        Inl e \<Rightarrow> Inr (st\<lparr>warnings := warnings st @ [(fname f, e)]\<rparr>)
      | Inr df0 \<Rightarrow>
          (let df1 = optimize_dtypes lib df0;
               df = suffix_non_key df1 comp;
               st1 = st\<lparr>report_rows := report_rows st @
                        [\<lparr>rcomponent = comp, rfile = fname f, rrows = nrows df, rcols = length df\<rparr>]\<rparr>
           in case (case accumulator st1 of None \<Rightarrow> Inr df | Some acc \<Rightarrow> merge acc df) of
                Inl e \<Rightarrow> Inl (e, st1)
              | Inr acc' \<Rightarrow>
                  (let st2 = st1\<lparr>tmp_parquet := Some (to_parquet lib acc')\<rparr>;
                       st3 = st2\<lparr>accumulator := None\<rparr>
                   in case tmp_parquet st3 of
                        None \<Rightarrow> Inl (FileNotFoundError, st3)
                      | Some b \<Rightarrow> Inr (st3\<lparr>accumulator := Some (read_parquet lib b)\<rparr>))))"

fun merge_loop ::
  "(('f, 'b) pandas \<Rightarrow> 'f source_file \<Rightarrow> error + 'f frame) \<Rightarrow> ('f, 'b) pandas \<Rightarrow>
   'f source_file list \<Rightarrow> ('f, 'b) state \<Rightarrow> (error \<times> ('f, 'b) state) + ('f, 'b) state" where
  "merge_loop rd lib [] st = Inr st"
| "merge_loop rd lib (f # fs) st =
     (case loop_body rd lib f st of
        Inl failure \<Rightarrow> Inl failure
      | Inr st' \<Rightarrow> merge_loop rd lib fs st')"

text \<open>
  \<^verbatim>\<open>main\<close> of \<^verbatim>\<open>merge_nhanes_any_batched.py\<close>, from the list \<open>files\<close> that the scan of the
  folder and the sort have produced. \<open>base_exists\<close> is \<^verbatim>\<open>base.exists()\<close>, \<open>csv\<close> the value of
  \<^verbatim>\<open>--csv\<close>. With no accumulator the final write is a method call on \<^verbatim>\<open>None\<close>. The
  Parquet writer does not take a table in which two columns have one name
  (\<^verbatim>\<open>ValueError: Duplicate column names found\<close>), so the final write of such a table ends the
  run. The messages of \<^verbatim>\<open>sys.exit\<close> are given without the path they end with; what a run
  prints is kept only for the warnings of skipped files.
\<close>

definition main_batched ::
  "('f, 'b) pandas \<Rightarrow> bool \<Rightarrow> int \<Rightarrow> 'f source_file list \<Rightarrow> ('f, 'b) state \<Rightarrow>
   (error \<times> ('f, 'b) state) + ('f, 'b) state" where
  "main_batched lib base_exists csv files st0 =
     (if \<not> base_exists then Inl (SysExit ''Folder not found'', st0)
      else if files = [] then Inl (SysExit ''No *_clean.(csv|xlsx|xls) files found.'', st0)
      else
        (case merge_loop read_any_batched lib files
                (st0\<lparr>accumulator := None, report_rows := [], warnings := []\<rparr>) of
           Inl failure \<Rightarrow> Inl failure
         | Inr st \<Rightarrow>
             (case accumulator st of
                None \<Rightarrow> Inl (AttributeError ''NoneType object has no attribute to_parquet'', st)
              | Some acc \<Rightarrow>
                  if \<not> distinct (columns acc)
                  then Inl (ValueError ''Duplicate column names found'', st)
                  else
                    (let st1 = st\<lparr>out_parquet := Some (to_parquet lib acc)\<rparr>;
                         st2 = (if csv = 1 then st1\<lparr>out_csv := Some acc\<rparr> else st1)
                     in Inr (st2\<lparr>merge_report := Some (report_rows st2)\<rparr>)))))"

text \<open>
  \<^verbatim>\<open>main\<close> of \<^verbatim>\<open>merge_nhanes_files.py\<close>: the paths come from the environment, a run without
  an accumulator exits with a message, the final write is that of the other script, and
  the checkpoint is removed at the end.
\<close>

definition main_files ::
  "('f, 'b) pandas \<Rightarrow> string option \<Rightarrow> string option \<Rightarrow> string \<Rightarrow> bool \<Rightarrow>
   'f source_file list \<Rightarrow> ('f, 'b) state \<Rightarrow> (error \<times> ('f, 'b) state) + ('f, 'b) state" where
  "main_files lib input_dir output_dir csv_opt base_exists files st0 =
     (if input_dir = None \<or> input_dir = Some [] \<or> output_dir = None \<or> output_dir = Some []
      then Inl (SysExitCode 1, st0)
      else if \<not> base_exists then Inl (SysExit ''Input Folder not found'', st0)
      else if files = [] then Inl (SysExit ''No *_clean.(csv|xlsx|xls) files found'', st0)
      else
        (case merge_loop read_any_files lib files
                (st0\<lparr>accumulator := None, report_rows := [], warnings := []\<rparr>) of
           Inl failure \<Rightarrow> Inl failure
         | Inr st \<Rightarrow>
             (case accumulator st of
                None \<Rightarrow> Inl (SysExit ''No data merged. Exiting.'', st)
              | Some acc \<Rightarrow>
                  if \<not> distinct (columns acc)
                  then Inl (ValueError ''Duplicate column names found'', st)
                  else
                    (let st1 = st\<lparr>out_parquet := Some (to_parquet lib acc)\<rparr>;
                         st2 = (if csv_opt = ''1'' then st1\<lparr>out_csv := Some acc\<rparr> else st1);
                         st3 = st2\<lparr>merge_report := Some (report_rows st2)\<rparr>
                     in Inr (st3\<lparr>tmp_parquet := None\<rparr>)))))"

text \<open>The exit status of the process: \<^verbatim>\<open>sys.exit\<close> with a message and an uncaught exception give 1.\<close>

fun exit_status :: "(error \<times> 's) + 's \<Rightarrow> nat" where
  "exit_status (Inr st) = 0"
| "exit_status (Inl (SysExitCode n, st)) = n"
| "exit_status (Inl (e, st)) = 1"

text \<open>The first file of the list that the loader accepts, made ready for the merge.\<close>

fun first_loaded ::
  "(('f, 'b) pandas \<Rightarrow> 'f source_file \<Rightarrow> error + 'f frame) \<Rightarrow> ('f, 'b) pandas \<Rightarrow>
   'f source_file list \<Rightarrow> 'f frame option" where
  "first_loaded rd lib [] = None"
| "first_loaded rd lib (f # fs) =
     (case rd lib f of
        Inl e \<Rightarrow> first_loaded rd lib fs
      | Inr df \<Rightarrow> Some (suffix_non_key (optimize_dtypes lib df) (component_from_filename (fstem f))))"


section \<open>Notions used in the statements\<close>

text \<open>The frame a loaded component is merged as: optimized, then namespaced.\<close>

definition prepared :: "('f, 'b) pandas \<Rightarrow> 'f source_file \<Rightarrow> 'f frame \<Rightarrow> 'f frame" where
  "prepared lib f df = suffix_non_key (optimize_dtypes lib df) (component_from_filename (fstem f))"

text \<open>
  The assumption on the Parquet writer and reader under which the checkpoint is harmless:
  reading back what was written gives the table that was written.
\<close>

definition lossless :: "('f, 'b) pandas \<Rightarrow> bool" where
  "lossless lib = (\<forall>t. read_parquet lib (to_parquet lib t) = t)"

text \<open>
  A data frame is rectangular; a source file is well formed when the frame the reader
  makes of it is. A frame can be joined to the accumulator without multiplying rows when
  it is rectangular, has the key column and has no key twice.
\<close>

definition well_formed :: "'f source_file \<Rightarrow> bool" where
  "well_formed f = (case parsed f of Inl e \<Rightarrow> True | Inr raw \<Rightarrow> rect raw)"

definition one_row_per_key :: "'f frame \<Rightarrow> bool" where
  "one_row_per_key df = (distinct (key_vals df) \<and> ''SEQN'' \<in> set (columns df) \<and> rect df)"



text \<open>The right row a left key is paired with, when there is one.\<close>

definition partner :: "'a \<Rightarrow> 'a list \<Rightarrow> nat option" where
  "partner k rks = (case matches k rks of [] \<Rightarrow> None | j # js \<Rightarrow> Some j)"


section \<open>A library instance and inputs to run the definitions on\<close>

text \<open>
  Floats are stood for by integers, \<^verbatim>\<open>float32\<close> keeps them, rows are sorted by a stable
  insertion sort on integer keys, and a Parquet file holds the frame itself.
\<close>

fun insert_key :: "(int \<times> nat) \<Rightarrow> (int \<times> nat) list \<Rightarrow> (int \<times> nat) list" where
  "insert_key x [] = [x]"
| "insert_key x (y # ys) = (if fst x \<le> fst y then x # y # ys else y # insert_key x ys)"

fun int_key :: "int cell \<Rightarrow> int option" where
  "int_key (IntV n) = Some n"
| "int_key _ = None"

definition ref_argsort :: "int cell list \<Rightarrow> nat list option" where
  "ref_argsort ks =
     (if list_all (\<lambda>k. int_key k \<noteq> None) ks
      then Some (map snd (foldr insert_key (zip (map (\<lambda>k. the (int_key k)) ks) [0..<length ks]) []))
      else None)"

definition ref_lib :: "(int, int frame) pandas" where
  "ref_lib = \<lparr> astype_f32 = (\<lambda>x. x), close32 = (\<lambda>x y. x = y), str_float = (\<lambda>x. ''f''),
               float_le = (\<lambda>x y. x \<le> y), argsort = ref_argsort,
               to_parquet = (\<lambda>t. t), read_parquet = (\<lambda>b. b) \<rparr>"

text \<open>A master file and the master table it is merged as.\<close>

definition demo_example :: "int source_file" where
  "demo_example =
     \<lparr>fname = ''demographics_clean.csv'', fstem = ''demographics_clean'', fsuffix = ''.csv'',
      parsed = Inr [\<lparr>cname = ''seqn'', ctype = Int64, cvals = [IntV 1, IntV 2, IntV 3]\<rparr>,
                    \<lparr>cname = ''age'', ctype = Int64, cvals = [IntV 30, IntV 41, IntV 52]\<rparr>]\<rparr>"

definition demo_frame :: "int frame" where
  "demo_frame = [\<lparr>cname = ''SEQN'', ctype = Int64, cvals = [IntV 1, IntV 2, IntV 3]\<rparr>,
                 \<lparr>cname = ''AGE__demographics'', ctype = Int8, cvals = [IntV 30, IntV 41, IntV 52]\<rparr>]"


text \<open>A medication file in which subject 2 has no drug name at all.\<close>

definition rx_null_example :: "int source_file" where
  "rx_null_example =
     \<lparr>fname = ''medications_clean.csv'', fstem = ''medications_clean'', fsuffix = ''.csv'',
      parsed = Inr [\<lparr>cname = ''SEQN'', ctype = Int64, cvals = [IntV 1, IntV 2, IntV 2, IntV 3]\<rparr>,
                    \<lparr>cname = ''RXDDRUG'', ctype = Object, cvals = [StrV ''A'', NA, NA, StrV ''B'']\<rparr>]\<rparr>"


text \<open>
  A component with a subject the master table does not have, a file without the key
  column, a file whose keys are text, and a disk without any of the four files.
\<close>

definition bmx_example :: "int source_file" where
  "bmx_example =
     \<lparr>fname = ''bmx_clean.csv'', fstem = ''bmx_clean'', fsuffix = ''.csv'',
      parsed = Inr [\<lparr>cname = ''SEQN'', ctype = Int64, cvals = [IntV 3, IntV 9]\<rparr>,
                    \<lparr>cname = ''BMXWT'', ctype = Int64, cvals = [IntV 70, IntV 81]\<rparr>]\<rparr>"

definition nokey_example :: "int source_file" where
  "nokey_example =
     \<lparr>fname = ''diet_clean.csv'', fstem = ''diet_clean'', fsuffix = ''.csv'',
      parsed = Inr [\<lparr>cname = ''id'', ctype = Int64, cvals = [IntV 1, IntV 2]\<rparr>]\<rparr>"

definition textkey_example :: "int source_file" where
  "textkey_example =
     \<lparr>fname = ''exam_clean.csv'', fstem = ''exam_clean'', fsuffix = ''.csv'',
      parsed = Inr [\<lparr>cname = ''SEQN'', ctype = Object, cvals = [StrV ''A1'', StrV ''A2'']\<rparr>,
                    \<lparr>cname = ''BMI'', ctype = Int64, cvals = [IntV 22, IntV 27]\<rparr>]\<rparr>"

text \<open>A file with one subject and one column beside the key.\<close>

definition one_column_file :: "string \<Rightarrow> string \<Rightarrow> int source_file" where
  "one_column_file nm col =
     \<lparr>fname = nm @ ''.csv'', fstem = nm, fsuffix = ''.csv'',
      parsed = Inr [\<lparr>cname = ''SEQN'', ctype = Int64, cvals = [IntV 1]\<rparr>,
                    \<lparr>cname = col, ctype = Int64, cvals = [IntV 5]\<rparr>]\<rparr>"

definition empty_disk :: "(int, int frame) state" where
  "empty_disk = \<lparr>accumulator = None, report_rows = [], warnings = [], tmp_parquet = None,
                  out_parquet = None, out_csv = None, merge_report = None\<rparr>"


section \<open>Properties of the schema optimizer\<close>

lemma optimize_dtypes_columns: "columns (optimize_dtypes lib df) = columns df"
  by (induction df)
     (auto simp: optimize_dtypes_def columns_def optimize_column_def downcast_float_def
                 downcast_integer_def split: option.splits)

text \<open>
  C9. The schema optimizer leaves the subject key column SEQN as it is: after
  \<^verbatim>\<open>optimize_dtypes\<close> the column named SEQN has the same name, the same storage type and
  the same values, at the same position; only other columns may change representation,
  and no column changes its name.
\<close>

theorem optimize_dtypes_key_unaltered:
  "column (optimize_dtypes lib df) ''SEQN'' = column df ''SEQN'' \<and>
   key_vals (optimize_dtypes lib df) = key_vals df \<and>
   columns (optimize_dtypes lib df) = columns df \<and>
   (\<forall>i < length df. cname (df ! i) = ''SEQN'' \<longrightarrow> optimize_dtypes lib df ! i = df ! i)"
proof -
  have names: "cname (optimize_column lib m r c) = cname c" for m r c
    by (simp add: optimize_column_def downcast_float_def downcast_integer_def
             split: option.splits)
  have col: "column (optimize_dtypes lib df) ''SEQN'' = column df ''SEQN''"
    by (induction df) (auto simp: column_def optimize_dtypes_def names)
  have pos: "\<forall>i < length df. cname (df ! i) = ''SEQN'' \<longrightarrow> optimize_dtypes lib df ! i = df ! i"
    by (simp add: optimize_dtypes_def)
  from col pos show ?thesis
    by (simp add: key_vals_def optimize_dtypes_columns)
qed

theorem optimize_dtypes_key_unaltered_witness:
  "key_vals (optimize_dtypes ref_lib
      [\<lparr>cname = ''SEQN'', ctype = Int64, cvals = [IntV 1, IntV 2]\<rparr>,
       \<lparr>cname = ''AGE'', ctype = Int64, cvals = [IntV 30, IntV 41]\<rparr>])
   = [IntV 1, IntV 2] \<and>
   map ctype (optimize_dtypes ref_lib
      [\<lparr>cname = ''SEQN'', ctype = Int64, cvals = [IntV 1, IntV 2]\<rparr>,
       \<lparr>cname = ''AGE'', ctype = Int64, cvals = [IntV 30, IntV 41]\<rparr>])
   = [Int64, Int8]"
  using optimize_dtypes_key_unaltered [of ref_lib
      "[\<lparr>cname = ''SEQN'', ctype = Int64, cvals = [IntV 1, IntV 2]\<rparr>,
        \<lparr>cname = ''AGE'', ctype = Int64, cvals = [IntV 30, IntV 41]\<rparr>]"]
  by (simp add: optimize_dtypes_def optimize_column_def downcast_integer_def key_vals_def
                column_def)

lemma downcast_integer_again:
  "is_integer_dtype (ctype c) \<Longrightarrow> downcast_integer (downcast_integer c) = downcast_integer c"
  by (cases "ctype c") (auto simp: downcast_integer_def)

lemma downcast_integer_stays_integer:
  "is_integer_dtype (ctype c) \<Longrightarrow> is_integer_dtype (ctype (downcast_integer c))"
  by (cases "ctype c") (auto simp: downcast_integer_def)

lemma downcast_float_again: "downcast_float lib (downcast_float lib c) = downcast_float lib c"
  by (simp add: downcast_float_def)

lemma downcast_float_stays_float:
  "is_float_dtype (ctype c) \<Longrightarrow> is_float_dtype (ctype (downcast_float lib c))"
  by (simp add: downcast_float_def)

lemma optimize_column_again:
  "optimize_column lib m r (optimize_column lib m r c) = optimize_column lib m r c"
proof (cases "is_float_dtype (ctype c)")
  case True
  then show ?thesis
    by (simp add: optimize_column_def downcast_float_again downcast_float_stays_float)
next
  case not_float: False
  show ?thesis
  proof (cases "is_integer_dtype (ctype c)")
    case True
    have "\<not> is_float_dtype (ctype (downcast_integer c))"
      using downcast_integer_stays_integer [OF True]
      by (cases "ctype (downcast_integer c)") auto
    with True not_float show ?thesis
      by (simp add: optimize_column_def downcast_integer_again downcast_integer_stays_integer)
  next
    case False
    with not_float show ?thesis by (simp add: optimize_column_def)
  qed
qed

lemma optimize_column_cname: "cname (optimize_column lib m r c) = cname c"
  by (simp add: optimize_column_def downcast_float_def downcast_integer_def split: option.splits)

lemma optimize_column_narrows:
  "itemsize (ctype (optimize_column lib m r c)) \<le> itemsize (ctype c)"
  by (cases "ctype c") (auto simp: optimize_column_def downcast_float_def downcast_integer_def)

text \<open>
  C8. Schema optimization is idempotent: a second run of \<^verbatim>\<open>optimize_dtypes\<close> returns the
  frame the first run returned, so the values are the same and the storage width of every
  column is the same (hence not larger); and the first run widens no column.
\<close>

theorem optimize_dtypes_idempotent:
  "optimize_dtypes lib (optimize_dtypes lib df) = optimize_dtypes lib df \<and>
   map cvals (optimize_dtypes lib (optimize_dtypes lib df)) = map cvals (optimize_dtypes lib df) \<and>
   list_all2 (\<lambda>c2 c1. itemsize (ctype c2) \<le> itemsize (ctype c1))
     (optimize_dtypes lib (optimize_dtypes lib df)) (optimize_dtypes lib df) \<and>
   list_all2 (\<lambda>c1 c. itemsize (ctype c1) \<le> itemsize (ctype c)) (optimize_dtypes lib df) df"
proof -
  have twice: "optimize_dtypes lib (optimize_dtypes lib df) = optimize_dtypes lib df"
    by (simp add: optimize_dtypes_def optimize_column_again optimize_column_cname)
  have narrow: "list_all2 (\<lambda>c1 c. itemsize (ctype c1) \<le> itemsize (ctype c)) (optimize_dtypes lib df) df"
    by (simp add: optimize_dtypes_def list_all2_conv_all_nth optimize_column_narrows)
  have same: "list_all2 (\<lambda>c2 c1. itemsize (ctype c2) \<le> itemsize (ctype c1))
     (optimize_dtypes lib df) (optimize_dtypes lib df)"
    by (simp add: list_all2_conv_all_nth)
  from twice narrow same show ?thesis by simp
qed

theorem optimize_dtypes_idempotent_witness:
  "optimize_dtypes ref_lib (optimize_dtypes ref_lib
      [\<lparr>cname = ''SEQN'', ctype = Int64, cvals = [IntV 1, IntV 2, IntV 3, IntV 4]\<rparr>,
       \<lparr>cname = ''AGE'', ctype = Int64, cvals = [IntV 30, IntV 41, IntV 300, IntV 7]\<rparr>,
       \<lparr>cname = ''BMI'', ctype = Float64, cvals = [FltV 21, NA, FltV 30, FltV 25]\<rparr>,
       \<lparr>cname = ''SEX'', ctype = Object, cvals = [StrV ''F'', StrV ''M'', StrV ''F'', NA]\<rparr>])
   = [\<lparr>cname = ''SEQN'', ctype = Int64, cvals = [IntV 1, IntV 2, IntV 3, IntV 4]\<rparr>,
      \<lparr>cname = ''AGE'', ctype = Int16, cvals = [IntV 30, IntV 41, IntV 300, IntV 7]\<rparr>,
      \<lparr>cname = ''BMI'', ctype = Float32, cvals = [FltV 21, NA, FltV 30, FltV 25]\<rparr>,
      \<lparr>cname = ''SEX'', ctype = Category, cvals = [StrV ''F'', StrV ''M'', StrV ''F'', NA]\<rparr>]"
proof -
  have once: "optimize_dtypes ref_lib
      [\<lparr>cname = ''SEQN'', ctype = Int64, cvals = [IntV 1, IntV 2, IntV 3, IntV 4]\<rparr>,
       \<lparr>cname = ''AGE'', ctype = Int64, cvals = [IntV 30, IntV 41, IntV 300, IntV 7]\<rparr>,
       \<lparr>cname = ''BMI'', ctype = Float64, cvals = [FltV 21, NA, FltV 30, FltV 25]\<rparr>,
       \<lparr>cname = ''SEX'', ctype = Object, cvals = [StrV ''F'', StrV ''M'', StrV ''F'', NA]\<rparr>]
   = [\<lparr>cname = ''SEQN'', ctype = Int64, cvals = [IntV 1, IntV 2, IntV 3, IntV 4]\<rparr>,
      \<lparr>cname = ''AGE'', ctype = Int16, cvals = [IntV 30, IntV 41, IntV 300, IntV 7]\<rparr>,
      \<lparr>cname = ''BMI'', ctype = Float32, cvals = [FltV 21, NA, FltV 30, FltV 25]\<rparr>,
      \<lparr>cname = ''SEX'', ctype = Category, cvals = [StrV ''F'', StrV ''M'', StrV ''F'', NA]\<rparr>]"
    by (simp add: optimize_dtypes_def optimize_column_def downcast_integer_def
                  downcast_float_def nunique_def ref_lib_def)
  show ?thesis
    using optimize_dtypes_idempotent [of ref_lib
      "[\<lparr>cname = ''SEQN'', ctype = Int64, cvals = [IntV 1, IntV 2, IntV 3, IntV 4]\<rparr>,
        \<lparr>cname = ''AGE'', ctype = Int64, cvals = [IntV 30, IntV 41, IntV 300, IntV 7]\<rparr>,
        \<lparr>cname = ''BMI'', ctype = Float64, cvals = [FltV 21, NA, FltV 30, FltV 25]\<rparr>,
        \<lparr>cname = ''SEX'', ctype = Object, cvals = [StrV ''F'', StrV ''M'', StrV ''F'', NA]\<rparr>]"]
    unfolding once by simp
qed


section \<open>Properties of the column namespacer\<close>

lemma startswith_iff: "startswith s p \<longleftrightarrow> (\<exists>b. s = p @ b)"
  by (metis append_eq_conv_conj append_take_drop_id startswith_def)

lemma contains_iff: "contains sub s \<longleftrightarrow> (\<exists>a b. s = a @ sub @ b)"
proof (induction s)
  case Nil
  then show ?case by auto
next
  case (Cons c cs)
  show ?case
  proof
    assume "contains sub (c # cs)"
    then consider "startswith (c # cs) sub" | "contains sub cs" by auto
    then show "\<exists>a b. c # cs = a @ sub @ b"
    proof cases
      case 1
      then obtain b where "c # cs = sub @ b" by (auto simp: startswith_iff)
      then have "c # cs = [] @ sub @ b" by simp
      then show ?thesis by blast
    next
      case 2
      with Cons obtain a b where "cs = a @ sub @ b" by auto
      then have "c # cs = (c # a) @ sub @ b" by simp
      then show ?thesis by blast
    qed
  next
    assume "\<exists>a b. c # cs = a @ sub @ b"
    then obtain a b where ab: "c # cs = a @ sub @ b" by auto
    show "contains sub (c # cs)"
    proof (cases a)
      case Nil
      with ab have "startswith (c # cs) sub" unfolding startswith_iff by auto
      then show ?thesis by simp
    next
      case (Cons x a')
      with ab have "cs = a' @ sub @ b" by simp
      with Cons.IH show ?thesis by auto
    qed
  qed
qed

lemma namespaced_eq:
  assumes eq: "c1 @ ''__'' @ p1 = c2 @ ''__'' @ p2"
    and c1: "\<not> contains ''__'' c1" and c2: "\<not> contains ''__'' c2"
    and p1: "\<not> startswith p1 ''_''" and p2: "\<not> startswith p2 ''_''"
  shows "c1 = c2 \<and> p1 = p2"
proof -
  have half: "u = []"
    if e: "a @ u = b" "u @ ''__'' @ q = ''__'' @ p" and nb: "\<not> contains ''__'' b"
      and np: "\<not> startswith p ''_''" for a b u :: string and p q
  proof (cases u)
    case Nil
    then show ?thesis .
  next
    case (Cons x u')
    show ?thesis
    proof (cases u')
      case Nil
      with Cons e(2) have "p = ''_'' @ q" by simp
      with np show ?thesis by (simp add: startswith_iff)
    next
      case (Cons y u'')
      with \<open>u = x # u'\<close> e(2) have "u = ''__'' @ u''" by simp
      with e(1) have "b = a @ ''__'' @ u''" by simp
      with nb show ?thesis unfolding contains_iff by blast
    qed
  qed
  from eq obtain u where "(c1 = c2 @ u \<and> u @ ''__'' @ p1 = ''__'' @ p2) \<or>
      (c1 @ u = c2 \<and> ''__'' @ p1 = u @ ''__'' @ p2)"
    unfolding append_eq_append_conv2 by blast
  then show ?thesis
  proof
    assume h: "c1 = c2 @ u \<and> u @ ''__'' @ p1 = ''__'' @ p2"
    then have "u = []" using half [of c2 u c1 p1 p2] c1 p2 by auto
    with h show ?thesis by simp
  next
    assume h: "c1 @ u = c2 \<and> ''__'' @ p1 = u @ ''__'' @ p2"
    then have "u = []" using half [of c1 u c2 p2 p1] c2 p1 by auto
    with h show ?thesis by simp
  qed
qed

lemma columns_suffix_non_key:
  "columns (suffix_non_key df p) = map (\<lambda>n. if n \<noteq> ''SEQN'' then n @ ''__'' @ p else n) (columns df)"
  by (simp add: suffix_non_key_def columns_def)

lemma namespaced_not_key: "n @ CHR ''_'' # q \<noteq> ''SEQN''"
proof
  assume "n @ CHR ''_'' # q = ''SEQN''"
  then have "CHR ''_'' \<in> set ''SEQN''" by (metis in_set_conv_decomp)
  then show False by simp
qed

lemma column_suffix_non_key: "column (suffix_non_key df p) ''SEQN'' = column df ''SEQN''"
  by (induction df) (auto simp: suffix_non_key_def column_def namespaced_not_key)

lemma cvals_suffix_non_key: "map cvals (suffix_non_key df p) = map cvals df"
  by (simp add: suffix_non_key_def)

lemma key_vals_suffix_non_key: "key_vals (suffix_non_key df p) = key_vals df"
  by (simp add: key_vals_def column_suffix_non_key)

text \<open>
  Different component names do not by themselves keep the namespaced names of two
  components apart: the files \<^verbatim>\<open>c_clean.csv\<close> with a column \<^verbatim>\<open>A_\<close> and \<^verbatim>\<open>_c_clean.csv\<close> with a
  column \<^verbatim>\<open>A\<close> give the components \<^verbatim>\<open>c\<close> and \<^verbatim>\<open>_c\<close>, and both columns are renamed to
  \<^verbatim>\<open>A___c\<close>. What becomes of such a pair in a run is left to the join and to the writer.
\<close>

lemma namespaced_names_can_meet:
  "component_from_filename ''c_clean'' = ''c'' \<and>
   component_from_filename ''_c_clean'' = ''_c'' \<and>
   columns (suffix_non_key
      [\<lparr>cname = ''SEQN'', ctype = Int64, cvals = [IntV 1 :: int cell]\<rparr>,
       \<lparr>cname = ''A_'', ctype = Int64, cvals = [IntV 5]\<rparr>] (component_from_filename ''c_clean''))
     = [''SEQN'', ''A___c''] \<and>
   columns (suffix_non_key
      [\<lparr>cname = ''SEQN'', ctype = Int64, cvals = [IntV 1 :: int cell]\<rparr>,
       \<lparr>cname = ''A'', ctype = Int64, cvals = [IntV 7]\<rparr>] (component_from_filename ''_c_clean''))
     = [''SEQN'', ''A___c'']"
  by code_simp

text \<open>
  With column names free of double underscores and component names that do not start with
  an underscore, the namespaced columns of two different components cannot meet.
\<close>

lemma suffix_non_key_apart:
  assumes "p1 \<noteq> p2"
    and "\<forall>n \<in> set (columns df1) \<union> set (columns df2). \<not> contains ''__'' n"
    and "\<not> startswith p1 ''_''" and "\<not> startswith p2 ''_''"
    and "distinct (columns df1)"
  shows "columns (suffix_non_key df1 p1) =
           map (\<lambda>n. if n \<noteq> ''SEQN'' then n @ ''__'' @ p1 else n) (columns df1) \<and>
         column (suffix_non_key df1 p1) ''SEQN'' = column df1 ''SEQN'' \<and>
         map cvals (suffix_non_key df1 p1) = map cvals df1 \<and>
         distinct (columns (suffix_non_key df1 p1)) \<and>
         set (columns (suffix_non_key df1 p1)) \<inter> set (columns (suffix_non_key df2 p2)) \<subseteq> {''SEQN''}"
proof -
  have inj: "inj_on (\<lambda>n. if n \<noteq> ''SEQN'' then n @ ''__'' @ p1 else n) (set (columns df1))"
    by (rule inj_onI) (auto simp: namespaced_not_key split: if_splits)
  have dist: "distinct (columns (suffix_non_key df1 p1))"
    unfolding columns_suffix_non_key using assms(5) inj by (simp add: distinct_map)
  have apart: "set (columns (suffix_non_key df1 p1)) \<inter> set (columns (suffix_non_key df2 p2))
                 \<subseteq> {''SEQN''}"
  proof
    fix m
    assume "m \<in> set (columns (suffix_non_key df1 p1)) \<inter> set (columns (suffix_non_key df2 p2))"
    then obtain n1 n2 where n1: "n1 \<in> set (columns df1)" and n2: "n2 \<in> set (columns df2)"
      and m1: "m = (if n1 \<noteq> ''SEQN'' then n1 @ ''__'' @ p1 else n1)"
      and m2: "m = (if n2 \<noteq> ''SEQN'' then n2 @ ''__'' @ p2 else n2)"
      unfolding columns_suffix_non_key by auto
    show "m \<in> {''SEQN''}"
    proof (rule ccontr)
      assume "m \<notin> {''SEQN''}"
      with m1 m2 have e: "n1 @ ''__'' @ p1 = n2 @ ''__'' @ p2"
        by (auto split: if_splits)
      from n1 n2 assms(2) have "\<not> contains ''__'' n1" "\<not> contains ''__'' n2" by auto
      from namespaced_eq [OF e this assms(3) assms(4)] assms(1) show False by simp
    qed
  qed
  from dist apart show ?thesis
    by (simp add: columns_suffix_non_key column_suffix_non_key cvals_suffix_non_key)
qed



section \<open>Properties of the component loader\<close>

lemma find_filter_same: "find P (filter P xs) = find P xs"
  by (induction xs) auto

lemma find_filter_none:
  "n \<noteq> m \<Longrightarrow> find (\<lambda>c. cname c = n) (filter (\<lambda>c. cname c = m) df) = None"
  by (induction df) auto

lemma find_append: "find P (xs @ ys) = (case find P xs of None \<Rightarrow> find P ys | Some x \<Rightarrow> Some x)"
  by (induction xs) auto

lemma column_select_key: "column (select df [''SEQN'', ''RXDDRUG'']) ''SEQN'' = column df ''SEQN''"
  by (simp add: column_def select_def find_append find_filter_same find_filter_none
           split: option.splits)

lemma column_select_attr:
  "column (select df [''SEQN'', ''RXDDRUG'']) ''RXDDRUG'' = column df ''RXDDRUG''"
  by (simp add: column_def select_def find_append find_filter_same find_filter_none
           split: option.splits)

lemma column_keep_rows:
  "column (keep_rows m df) n =
     map_option (\<lambda>c. c\<lparr>cvals := map snd (filter fst (zip m (cvals c)))\<rparr>) (column df n)"
  by (induction df) (auto simp: column_def keep_rows_def)

lemma vals_keep_rows: "vals (keep_rows m df) n = map snd (filter fst (zip m (vals df n)))"
  by (simp add: vals_def column_keep_rows split: option.splits)

lemma column_astype_str:
  "column (astype_str lib df a) n =
     map_option (\<lambda>c. if n = a then c\<lparr>ctype := Object, cvals := map (\<lambda>v. StrV (py_str lib v)) (cvals c)\<rparr>
                      else c) (column df n)"
  by (induction df) (auto simp: column_def astype_str_def)

lemma vals_astype_str:
  "vals (astype_str lib df a) n =
     (if n = a then map (\<lambda>v. StrV (py_str lib v)) (vals df n) else vals df n)"
  by (simp add: vals_def column_astype_str split: option.splits)

lemma zip_masked:
  "zip (map snd (filter fst (zip m ks))) (map snd (filter fst (zip m vs)))
     = map snd (filter fst (zip m (zip ks vs)))"
proof (induction m arbitrary: ks vs)
  case Nil
  then show ?case by simp
next
  case (Cons b m)
  show ?case
  proof (cases ks)
    case Nil
    then show ?thesis by simp
  next
    case ks: (Cons k ks')
    show ?thesis
    proof (cases vs)
      case Nil
      then show ?thesis by simp
    next
      case (Cons v vs')
      with ks Cons.IH show ?thesis by simp
    qed
  qed
qed

lemma mask_from_values:
  "map snd (filter fst (zip (map P vs) (zip ks vs))) = filter (\<lambda>(k, v). P v) (zip ks vs)"
proof (induction vs arbitrary: ks)
  case Nil
  then show ?case by simp
next
  case (Cons v vs)
  then show ?case by (cases ks) auto
qed

lemma zip_map_snd: "zip ks (map f vs) = map (\<lambda>(k, v). (k, f v)) (zip ks vs)"
  by (simp add: zip_map2 case_prod_unfold)


lemma vals_select_key: "vals (select df [''SEQN'', ''RXDDRUG'']) ''SEQN'' = vals df ''SEQN''"
  by (simp add: vals_def column_select_key)

lemma vals_select_attr: "vals (select df [''SEQN'', ''RXDDRUG'']) ''RXDDRUG'' = vals df ''RXDDRUG''"
  by (simp add: vals_def column_select_attr)

lemma filter_map_pair:
  "filter (\<lambda>(k, v). P k) (map (\<lambda>(k, v). (k, f v)) xs) = map (\<lambda>(k, v). (k, f v)) (filter (\<lambda>(k, v). P k) xs)"
  by (induction xs) auto

lemma filter_filter_pair:
  "filter (\<lambda>(k, v). P k) (filter (\<lambda>(k, v). Q v) xs) = filter (\<lambda>(k, v). P k \<and> Q v) xs"
  by (induction xs) auto

lemma map_fst_map_pair: "map fst (map (\<lambda>(k, v). (k, f v)) xs) = map fst xs"
  by (induction xs) auto

lemma strs_of_map_pair:
  "map (str_val \<circ> snd) (map (\<lambda>(k, v). (k, StrV (py_str lib v))) xs) = map (py_str lib \<circ> snd) xs"
  by (induction xs) auto

lemma aggregate_meds_eq:
  "aggregate_meds lib df =
     [\<lparr>cname = ''SEQN'',
       ctype = (case column df ''SEQN'' of Some c \<Rightarrow> ctype c | None \<Rightarrow> Object),
       cvals = sort_keys lib (remdups (map fst
                 (filter (\<lambda>(k, v). k \<noteq> NA \<and> v \<noteq> NA) (zip (vals df ''SEQN'') (vals df ''RXDDRUG'')))))\<rparr>,
      \<lparr>cname = ''RXDDRUG'', ctype = Object,
       cvals = map (\<lambda>k. StrV (join '', '' (map (py_str lib \<circ> snd)
                     (filter (\<lambda>(k', v). k' = k)
                        (filter (\<lambda>(k, v). k \<noteq> NA \<and> v \<noteq> NA)
                           (zip (vals df ''SEQN'') (vals df ''RXDDRUG'')))))))
                 (sort_keys lib (remdups (map fst
                    (filter (\<lambda>(k, v). k \<noteq> NA \<and> v \<noteq> NA)
                       (zip (vals df ''SEQN'') (vals df ''RXDDRUG''))))))\<rparr>]"
proof -
  let ?sel = "select df [''SEQN'', ''RXDDRUG'']"
  let ?dn = "dropna ?sel ''RXDDRUG''"
  let ?as = "astype_str lib ?dn ''RXDDRUG''"
  let ?ks = "vals df ''SEQN''" and ?vs = "vals df ''RXDDRUG''"
  let ?g = "\<lambda>(k, v). (k, StrV (py_str lib v))"
  have ty: "(case column ?as ''SEQN'' of Some c \<Rightarrow> ctype c | None \<Rightarrow> Object)
          = (case column df ''SEQN'' of Some c \<Rightarrow> ctype c | None \<Rightarrow> Object)"
    by (simp add: column_astype_str dropna_def column_keep_rows column_select_key
             split: option.splits)
  have z: "zip (vals ?as ''SEQN'') (vals ?as ''RXDDRUG'')
         = map ?g (filter (\<lambda>(k, v). v \<noteq> NA) (zip ?ks ?vs))"
  proof -
    have k: "vals ?as ''SEQN'' = map snd (filter fst (zip (map (\<lambda>v. v \<noteq> NA) ?vs) ?ks))"
      by (simp add: vals_astype_str dropna_def vals_keep_rows vals_select_key vals_select_attr)
    have v: "vals ?as ''RXDDRUG''
           = map (\<lambda>v. StrV (py_str lib v)) (map snd (filter fst (zip (map (\<lambda>v. v \<noteq> NA) ?vs) ?vs)))"
      by (simp add: vals_astype_str dropna_def vals_keep_rows vals_select_attr)
    show ?thesis
      unfolding k v
      by (simp only: zip_map_snd [where f = "\<lambda>v. StrV (py_str lib v)"] zip_masked mask_from_values)
  qed
  have rows: "filter (\<lambda>(k, v). k \<noteq> NA) (zip (vals ?as ''SEQN'') (vals ?as ''RXDDRUG''))
         = map ?g (filter (\<lambda>(k, v). k \<noteq> NA \<and> v \<noteq> NA) (zip ?ks ?vs))"
    unfolding z by (simp only: filter_map_pair filter_filter_pair)
  have grp: "map (str_val \<circ> snd) (filter (\<lambda>(k', v). k' = k) (map ?g xs))
         = map (py_str lib \<circ> snd) (filter (\<lambda>(k', v). k' = k) xs)" for k xs
    by (simp only: filter_map_pair strs_of_map_pair)
  show ?thesis
    unfolding aggregate_meds_def groupby_join_def Let_def rows ty
    by (simp only: map_fst_map_pair grp)
qed

lemma set_insert_sorted: "set (insert_sorted le x ys) = insert x (set ys)"
  by (induction ys) auto

lemma distinct_insert_sorted: "distinct (insert_sorted le x ys) = (x \<notin> set ys \<and> distinct ys)"
  by (induction ys) (auto simp: set_insert_sorted)

lemma set_sort_keys: "set (sort_keys lib ks) = set ks"
  by (induction ks) (auto simp: sort_keys_def set_insert_sorted)

lemma distinct_sort_keys: "distinct (sort_keys lib ks) = distinct ks"
  by (induction ks)
     (auto simp: sort_keys_def distinct_insert_sorted set_sort_keys [unfolded sort_keys_def])




lemma aggregate_meds_shape:
  "columns (aggregate_meds lib df) = [''SEQN'', ''RXDDRUG''] \<and>
   key_vals (aggregate_meds lib df) = sort_keys lib (remdups (map fst
       (filter (\<lambda>(k, v). k \<noteq> NA \<and> v \<noteq> NA) (zip (vals df ''SEQN'') (vals df ''RXDDRUG''))))) \<and>
   vals (aggregate_meds lib df) ''RXDDRUG'' =
     map (\<lambda>k. StrV (join '', '' (map (py_str lib \<circ> snd)
                     (filter (\<lambda>(k', v). k' = k)
                        (filter (\<lambda>(k, v). k \<noteq> NA \<and> v \<noteq> NA)
                           (zip (vals df ''SEQN'') (vals df ''RXDDRUG'')))))))
         (key_vals (aggregate_meds lib df))"
  unfolding aggregate_meds_eq by (simp add: columns_def key_vals_def vals_def column_def)




lemma matches_empty_iff: "matches k rks = [] \<longleftrightarrow> k \<notin> set rks"
  by (auto simp: matches_def filter_empty_conv in_set_conv_nth)

lemma filter_at_most_one:
  "distinct xs \<Longrightarrow> (\<And>x y. x \<in> set xs \<Longrightarrow> y \<in> set xs \<Longrightarrow> P x \<Longrightarrow> P y \<Longrightarrow> x = y)
     \<Longrightarrow> length (filter P xs) \<le> Suc 0"
proof (induction xs)
  case Nil
  then show ?case by simp
next
  case (Cons a xs)
  show ?case
  proof (cases "P a")
    case True
    have "filter P xs = []"
    proof (rule ccontr)
      assume "filter P xs \<noteq> []"
      then obtain y where y: "y \<in> set xs" "P y"
        by (metis filter_empty_conv)
      with True Cons.prems(2) [of a y] have "a = y" by simp
      with y Cons.prems(1) show False by simp
    qed
    with True show ?thesis by simp
  next
    case False
    with Cons show ?thesis by simp
  qed
qed

lemma matches_at_most_one: "distinct rks \<Longrightarrow> length (matches k rks) \<le> Suc 0"
  unfolding matches_def
  by (rule filter_at_most_one) (auto simp: nth_eq_iff_index_eq)

lemma matches_cases:
  assumes "distinct rks"
  obtains "matches k rks = []" "k \<notin> set rks"
  | j where "matches k rks = [j]" "j < length rks" "rks ! j = k"
proof (cases "matches k rks")
  case Nil
  then show ?thesis using that(1) by (simp add: matches_empty_iff)
next
  case (Cons j js)
  with matches_at_most_one [OF assms, of k] have one: "matches k rks = [j]" by simp
  then have "j \<in> set (matches k rks)" by simp
  then have "j < length rks" "rks ! j = k" by (auto simp: matches_def)
  with one show ?thesis using that(2) by blast
qed

lemma join_pairs_distinct:
  assumes "distinct rks"
  shows "join_pairs lks rks = map (\<lambda>i. (i, partner (lks ! i) rks)) [0..<length lks]"
proof -
  have one: "(case matches k rks of [] \<Rightarrow> [(i, None)] | js \<Rightarrow> map (\<lambda>j. (i, Some j)) js)
        = [(i, partner k rks)]" for i :: nat and k
    by (rule matches_cases [OF assms, of k]) (simp_all add: partner_def)
  show ?thesis
    unfolding join_pairs_def one by (induction "[0..<length lks]") (simp_all add: map_concat)
qed



lemma partner_Some:
  "distinct rks \<Longrightarrow> partner k rks = Some j \<Longrightarrow> j < length rks \<and> rks ! j = k"
  by (rule matches_cases [of rks k]) (auto simp: partner_def)

lemma merge_Inr:
  assumes "merge left right = Inr m"
  obtains lk rk where "column left ''SEQN'' = Some lk" and "column right ''SEQN'' = Some rk"
    and "\<not> keys_incompatible lk rk"
    and "m = map (left_part (overlap left right) (join_pairs (cvals lk) (cvals rk))) left @
             map (right_part (overlap left right) (join_pairs (cvals lk) (cvals rk)))
                 (filter (\<lambda>c. cname c \<noteq> ''SEQN'') right)"
  using assms unfolding merge_def Let_def
  by (auto split: option.splits if_splits)

lemma cname_left_part_key: "cname (left_part (overlap left right) pairs c) = ''SEQN'' \<longleftrightarrow> cname c = ''SEQN''"
  by (auto simp: left_part_def overlap_def namespaced_not_key)

lemma column_left_part:
  "column (map (left_part (overlap l r) pairs) left @ rest) ''SEQN''
     = (case column left ''SEQN'' of
          Some c \<Rightarrow> Some (left_part (overlap l r) pairs c)
        | None \<Rightarrow> column rest ''SEQN'')"
  by (induction left) (auto simp: column_def cname_left_part_key)

lemma key_vals_merge:
  assumes "merge left right = Inr m" and "distinct (key_vals right)"
  shows "key_vals m = key_vals left"
proof -
  from assms(1) obtain lk rk where lk: "column left ''SEQN'' = Some lk"
    and rk: "column right ''SEQN'' = Some rk"
    and m: "column m ''SEQN'' =
        Some (left_part (overlap left right) (join_pairs (cvals lk) (cvals rk)) lk)"
    by (rule merge_Inr) (simp add: column_left_part)
  from assms(2) rk have "distinct (cvals rk)" by (simp add: key_vals_def)
  from join_pairs_distinct [OF this] have
    "map (\<lambda>(i, j). cvals lk ! i) (join_pairs (cvals lk) (cvals rk)) = cvals lk"
    by (simp add: comp_def map_nth)
  with m lk show ?thesis by (simp add: key_vals_def left_part_def)
qed


lemma rect_iff: "rect df \<longleftrightarrow> (\<forall>c \<in> set df. \<forall>d \<in> set df. length (cvals c) = length (cvals d))"
  by (cases df) (auto simp: rect_def nrows_def list_all_iff)

lemma column_Some_mem: "column df n = Some c \<Longrightarrow> c \<in> set df \<and> cname c = n"
  unfolding column_def by (induction df) (auto split: if_splits)

lemma column_Some_iff: "(\<exists>c. column df n = Some c) \<longleftrightarrow> n \<in> set (columns df)"
  unfolding column_def columns_def by (induction df) auto

lemma nrows_rect: "rect df \<Longrightarrow> c \<in> set df \<Longrightarrow> nrows df = length (cvals c)"
  by (cases df) (auto simp: rect_def nrows_def list_all_iff)

lemma nrows_rect_key:
  assumes "rect df" and "''SEQN'' \<in> set (columns df)"
  shows "nrows df = length (key_vals df)"
proof -
  from assms(2) obtain c where c: "column df ''SEQN'' = Some c"
    using column_Some_iff by blast
  with nrows_rect [OF assms(1)] column_Some_mem [OF c] show ?thesis
    by (simp add: key_vals_def)
qed

lemma merge_rows:
  assumes "merge left right = Inr m" and "distinct (key_vals right)"
  shows "rect m \<and> nrows m = length (key_vals left) \<and> ''SEQN'' \<in> set (columns m)"
proof -
  from assms(1) obtain lk rk where lk: "column left ''SEQN'' = Some lk"
    and rk: "column right ''SEQN'' = Some rk"
    and m: "m = map (left_part (overlap left right) (join_pairs (cvals lk) (cvals rk))) left @
             map (right_part (overlap left right) (join_pairs (cvals lk) (cvals rk)))
                 (filter (\<lambda>c. cname c \<noteq> ''SEQN'') right)"
    by (rule merge_Inr)
  have len: "length (cvals c) = length (join_pairs (cvals lk) (cvals rk))" if "c \<in> set m" for c
    using that unfolding m by (auto simp: left_part_def right_part_def)
  then have r: "rect m" unfolding rect_iff by simp
  from key_vals_merge [OF assms] lk have "column m ''SEQN'' \<noteq> None"
    using m by (simp add: column_left_part)
  then have k: "''SEQN'' \<in> set (columns m)" using column_Some_iff [of m "''SEQN''"] by auto
  from nrows_rect_key [OF r k] key_vals_merge [OF assms] r k show ?thesis by simp
qed


lemma column_optimize_dtypes_key: "column (optimize_dtypes lib df) ''SEQN'' = column df ''SEQN''"
  by (induction df) (auto simp: column_def optimize_dtypes_def optimize_column_cname)

lemma key_vals_optimize_dtypes: "key_vals (optimize_dtypes lib df) = key_vals df"
  by (simp add: key_vals_def column_optimize_dtypes_key)

lemma key_vals_prepared:
  "key_vals (suffix_non_key (optimize_dtypes lib df) cn) = key_vals df"
  by (simp add: key_vals_suffix_non_key key_vals_optimize_dtypes)

lemma columns_prepared:
  "columns (suffix_non_key (optimize_dtypes lib df) cn) =
     map (\<lambda>n. if n \<noteq> ''SEQN'' then n @ ''__'' @ cn else n) (columns df)"
  by (simp add: columns_suffix_non_key optimize_dtypes_columns)





lemma load_columns_has_key:
  assumes "load_columns f = Inr df"
  shows "''SEQN'' \<in> set (columns df)"
proof -
  have "''SEQN'' \<in> set (columns (drop_columns d (drop_cols d)))" if "''SEQN'' \<in> set (columns d)"
    for d :: "'a frame"
    using that by (auto simp: columns_def drop_columns_def drop_cols_def)
  with assms show ?thesis
    by (auto simp: load_columns_def Let_def split: sum.splits if_splits)
qed



lemma columns_take_rows: "columns (take_rows p df) = columns df"
  by (simp add: columns_def take_rows_def comp_def)

lemma columns_keep_rows: "columns (keep_rows m df) = columns df"
  by (simp add: columns_def keep_rows_def comp_def)

lemma firsts_distinct:
  "distinct (map snd (filter fst (zip (first_seen seen ks) ks))) \<and>
   set (map snd (filter fst (zip (first_seen seen ks) ks))) = set ks - set seen"
  by (induction ks arbitrary: seen) auto

lemma key_vals_drop_duplicates:
  "key_vals (drop_duplicates df) = map snd (filter fst (zip (first_seen [] (key_vals df)) (key_vals df)))"
  by (simp add: drop_duplicates_def key_vals_def column_keep_rows split: option.splits)

lemma drop_duplicates_keys:
  "distinct (key_vals (drop_duplicates df)) \<and> set (key_vals (drop_duplicates df)) = set (key_vals df)"
  using firsts_distinct [of "[]" "key_vals df"] by (simp add: key_vals_drop_duplicates)











section \<open>Properties of the accumulator engine\<close>

lemma loop_body_skip:
  "rd lib f = Inl e \<Longrightarrow> loop_body rd lib f st = Inr (st\<lparr>warnings := warnings st @ [(fname f, e)]\<rparr>)"
  by (simp add: loop_body_def)

lemma loop_body_store:
  assumes "rd lib f = Inr df"
    and "(case accumulator st of None \<Rightarrow> Inr (prepared lib f df) | Some acc \<Rightarrow> merge acc (prepared lib f df)) = Inr m"
  shows "loop_body rd lib f st =
           Inr (st\<lparr>report_rows := report_rows st @
                     [\<lparr>rcomponent = component_from_filename (fstem f), rfile = fname f,
                       rrows = nrows (prepared lib f df), rcols = length (prepared lib f df)\<rparr>],
                   tmp_parquet := Some (to_parquet lib m),
                   accumulator := Some (read_parquet lib (to_parquet lib m))\<rparr>)"
  using assms unfolding loop_body_def prepared_def Let_def by simp

lemma loop_body_abort:
  assumes "rd lib f = Inr df" and "accumulator st = Some acc"
    and "merge acc (prepared lib f df) = Inl e"
  shows "loop_body rd lib f st =
           Inl (e, st\<lparr>report_rows := report_rows st @
                     [\<lparr>rcomponent = component_from_filename (fstem f), rfile = fname f,
                       rrows = nrows (prepared lib f df), rcols = length (prepared lib f df)\<rparr>]\<rparr>)"
  using assms unfolding loop_body_def prepared_def Let_def by simp


lemma lossless_ref_lib: "lossless ref_lib"
  by (simp add: lossless_def ref_lib_def)



text \<open>
  C4, as stated, fails: a failure in the merge of one component is not caught. With a
  master file whose keys are integers and a second file whose keys are text, the run ends
  at the second file with the exception of the merge: nothing is logged, the third file
  is never read, no output is written.
\<close>

theorem merge_failure_aborts_run:
  "isl (main_files ref_lib (Some ''in'') (Some ''out'') ''0'' True
          [demo_example, textkey_example, rx_null_example] empty_disk) \<and>
   fst (projl (main_files ref_lib (Some ''in'') (Some ''out'') ''0'' True
          [demo_example, textkey_example, rx_null_example] empty_disk))
     = ValueError ''You are trying to merge on incompatible key columns'' \<and>
   warnings (snd (projl (main_files ref_lib (Some ''in'') (Some ''out'') ''0'' True
          [demo_example, textkey_example, rx_null_example] empty_disk))) = [] \<and>
   map rfile (report_rows (snd (projl (main_files ref_lib (Some ''in'') (Some ''out'') ''0'' True
          [demo_example, textkey_example, rx_null_example] empty_disk))))
     = [''demographics_clean.csv'', ''exam_clean.csv''] \<and>
   out_parquet (snd (projl (main_files ref_lib (Some ''in'') (Some ''out'') ''0'' True
          [demo_example, textkey_example, rx_null_example] empty_disk))) = None \<and>
   exit_status (main_files ref_lib (Some ''in'') (Some ''out'') ''0'' True
          [demo_example, textkey_example, rx_null_example] empty_disk) = 1 \<and>
   exit_status (main_batched ref_lib True 0
          [demo_example, textkey_example, rx_null_example] empty_disk) = 1"
  by code_simp


text \<open>
  C4, amended. A failure while a component is loaded (the reader's exception, an
  unsupported file type, a missing key column, keys that cannot be sorted) is logged with
  the file name and only that component is skipped: the accumulator, the checkpoint, the
  report and the outputs stay as they are and the loop goes on with the next file. A
  failure of the merge is not caught: the loop ends there with that exception, the
  accumulator and the checkpoint being those of the last successful round.
\<close>

theorem load_failure_skips_component:
  "(rd lib f = Inl e \<longrightarrow>
      (\<exists>st'. loop_body rd lib f st = Inr st' \<and>
         warnings st' = warnings st @ [(fname f, e)] \<and>
         accumulator st' = accumulator st \<and> tmp_parquet st' = tmp_parquet st \<and>
         report_rows st' = report_rows st \<and> out_parquet st' = out_parquet st \<and>
         merge_loop rd lib (f # fs) st = merge_loop rd lib fs st')) \<and>
   (rd lib f = Inr df \<longrightarrow> accumulator st = Some acc \<longrightarrow> merge acc (prepared lib f df) = Inl e \<longrightarrow>
      (\<exists>st'. merge_loop rd lib (f # fs) st = Inl (e, st') \<and>
         accumulator st' = Some acc \<and> tmp_parquet st' = tmp_parquet st \<and>
         warnings st' = warnings st \<and> out_parquet st' = out_parquet st))"
proof (intro conjI impI)
  assume "rd lib f = Inl e"
  from loop_body_skip [of rd lib f e st, OF this]
  show "\<exists>st'. loop_body rd lib f st = Inr st' \<and>
         warnings st' = warnings st @ [(fname f, e)] \<and>
         accumulator st' = accumulator st \<and> tmp_parquet st' = tmp_parquet st \<and>
         report_rows st' = report_rows st \<and> out_parquet st' = out_parquet st \<and>
         merge_loop rd lib (f # fs) st = merge_loop rd lib fs st'"
    by simp
next
  assume "rd lib f = Inr df" and "accumulator st = Some acc" and "merge acc (prepared lib f df) = Inl e"
  from loop_body_abort [of rd lib f df st acc e, OF this] \<open>accumulator st = Some acc\<close>
  show "\<exists>st'. merge_loop rd lib (f # fs) st = Inl (e, st') \<and>
         accumulator st' = Some acc \<and> tmp_parquet st' = tmp_parquet st \<and>
         warnings st' = warnings st \<and> out_parquet st' = out_parquet st"
    by simp
qed

theorem load_failure_skips_component_witness:
  "\<exists>st'. loop_body read_any_files ref_lib nokey_example (empty_disk\<lparr>accumulator := Some demo_frame\<rparr>) = Inr st' \<and>
     warnings st' = [(''diet_clean.csv'', ValueError ''diet_clean.csv: No SEQN column found.'')] \<and>
     accumulator st' = Some demo_frame \<and>
     merge_loop read_any_files ref_lib [nokey_example] (empty_disk\<lparr>accumulator := Some demo_frame\<rparr>) = Inr st'"
proof -
  have h: "read_any_files ref_lib nokey_example = Inl (ValueError ''diet_clean.csv: No SEQN column found.'')"
    by code_simp
  have w: "warnings (empty_disk\<lparr>accumulator := Some demo_frame\<rparr>) = []"
    by (simp add: empty_disk_def)
  from load_failure_skips_component [of read_any_files ref_lib nokey_example
      "ValueError ''diet_clean.csv: No SEQN column found.''"
      "empty_disk\<lparr>accumulator := Some demo_frame\<rparr>" "[]"] h
  obtain st' where
    "loop_body read_any_files ref_lib nokey_example (empty_disk\<lparr>accumulator := Some demo_frame\<rparr>) = Inr st'"
    "warnings st' = warnings (empty_disk\<lparr>accumulator := Some demo_frame\<rparr>) @
        [(fname nokey_example, ValueError ''diet_clean.csv: No SEQN column found.'')]"
    "accumulator st' = accumulator (empty_disk\<lparr>accumulator := Some demo_frame\<rparr>)"
    "merge_loop read_any_files ref_lib [nokey_example] (empty_disk\<lparr>accumulator := Some demo_frame\<rparr>)
       = merge_loop read_any_files ref_lib [] st'"
    by blast
  then show ?thesis
    by (intro exI [of _ st']) (simp add: w nokey_example_def)
qed

lemma merge_loop_all_fail:
  "list_all (\<lambda>f. isl (rd lib f)) files \<Longrightarrow>
   \<exists>st'. merge_loop rd lib files st = Inr st' \<and> accumulator st' = accumulator st \<and>
         tmp_parquet st' = tmp_parquet st \<and> out_parquet st' = out_parquet st \<and>
         out_csv st' = out_csv st \<and> merge_report st' = merge_report st \<and>
         report_rows st' = report_rows st"
proof (induction files arbitrary: st)
  case Nil
  then show ?case by simp
next
  case (Cons f fs)
  then obtain e where e: "rd lib f = Inl e" by (auto simp: isl_def)
  from Cons.prems have "list_all (\<lambda>f. isl (rd lib f)) fs" by simp
  from Cons.IH [OF this, of "st\<lparr>warnings := warnings st @ [(fname f, e)]\<rparr>"]
  show ?case by (simp add: loop_body_skip [of rd lib f e st, OF e])
qed


text \<open>
  When no component loads, neither script writes the final table, the CSV or the report,
  and both end with exit status 1: \<^verbatim>\<open>merge_nhanes_files.py\<close> tests the accumulator and leaves
  with a message of its own, \<^verbatim>\<open>merge_nhanes_any_batched.py\<close> goes on to the final write.
\<close>

lemma no_component_no_output:
  "(list_all (\<lambda>f. isl (read_any_files lib f)) files \<longrightarrow>
      (\<exists>e st. main_files lib input_dir output_dir csv_opt base_exists files st0 = Inl (e, st) \<and>
         exit_status (main_files lib input_dir output_dir csv_opt base_exists files st0) = 1 \<and>
         out_parquet st = out_parquet st0 \<and> out_csv st = out_csv st0 \<and>
         merge_report st = merge_report st0 \<and>
         (input_dir \<noteq> None \<and> input_dir \<noteq> Some [] \<and> output_dir \<noteq> None \<and> output_dir \<noteq> Some [] \<and>
          base_exists \<and> files \<noteq> [] \<longrightarrow> e = SysExit ''No data merged. Exiting.''))) \<and>
   (list_all (\<lambda>f. isl (read_any_batched lib f)) files \<longrightarrow>
      (\<exists>e st. main_batched lib base_exists csv files st0 = Inl (e, st) \<and>
         exit_status (main_batched lib base_exists csv files st0) = 1 \<and>
         out_parquet st = out_parquet st0 \<and> out_csv st = out_csv st0 \<and>
         merge_report st = merge_report st0 \<and>
         (base_exists \<and> files \<noteq> [] \<longrightarrow>
            e = AttributeError ''NoneType object has no attribute to_parquet'')))"
proof (intro conjI impI)
  assume a: "list_all (\<lambda>f. isl (read_any_files lib f)) files"
  from merge_loop_all_fail [of read_any_files lib files
      "st0\<lparr>accumulator := None, report_rows := [], warnings := []\<rparr>", OF a]
  obtain st' where "merge_loop read_any_files lib files
        (st0\<lparr>accumulator := None, report_rows := [], warnings := []\<rparr>) = Inr st'"
    and "accumulator st' = None" and "out_parquet st' = out_parquet st0"
    and "out_csv st' = out_csv st0" and "merge_report st' = merge_report st0"
    by auto
  then show "\<exists>e st. main_files lib input_dir output_dir csv_opt base_exists files st0 = Inl (e, st) \<and>
         exit_status (main_files lib input_dir output_dir csv_opt base_exists files st0) = 1 \<and>
         out_parquet st = out_parquet st0 \<and> out_csv st = out_csv st0 \<and>
         merge_report st = merge_report st0 \<and>
         (input_dir \<noteq> None \<and> input_dir \<noteq> Some [] \<and> output_dir \<noteq> None \<and> output_dir \<noteq> Some [] \<and>
          base_exists \<and> files \<noteq> [] \<longrightarrow> e = SysExit ''No data merged. Exiting.'')"
    by (simp add: main_files_def)
next
  assume a: "list_all (\<lambda>f. isl (read_any_batched lib f)) files"
  from merge_loop_all_fail [of read_any_batched lib files
      "st0\<lparr>accumulator := None, report_rows := [], warnings := []\<rparr>", OF a]
  obtain st' where "merge_loop read_any_batched lib files
        (st0\<lparr>accumulator := None, report_rows := [], warnings := []\<rparr>) = Inr st'"
    and "accumulator st' = None" and "out_parquet st' = out_parquet st0"
    and "out_csv st' = out_csv st0" and "merge_report st' = merge_report st0"
    by auto
  then show "\<exists>e st. main_batched lib base_exists csv files st0 = Inl (e, st) \<and>
         exit_status (main_batched lib base_exists csv files st0) = 1 \<and>
         out_parquet st = out_parquet st0 \<and> out_csv st = out_csv st0 \<and>
         merge_report st = merge_report st0 \<and>
         (base_exists \<and> files \<noteq> [] \<longrightarrow>
            e = AttributeError ''NoneType object has no attribute to_parquet'')"
    by (simp add: main_batched_def)
qed

text \<open>
  C3. A run in which no component loads: the folder holds one file, \<^verbatim>\<open>diet_clean.csv\<close>,
  which has no SEQN column, so that the file is skipped and the accumulator stays empty.
  \<^verbatim>\<open>merge_nhanes_files.py\<close> then fails on purpose, with the message
  \<^verbatim>\<open>No data merged. Exiting.\<close> (l.165-166). \<^verbatim>\<open>merge_nhanes_any_batched.py\<close> lacks this test: it
  calls \<^verbatim>\<open>accumulator.to_parquet\<close> on \<^verbatim>\<open>None\<close> (l.137) and ends with the uncaught
  \<^verbatim>\<open>AttributeError\<close> of that call, a traceback and not a diagnostic of an empty merge.
  Neither run writes the final table, the CSV or the report.
\<close>

theorem batched_empty_merge_crashes:
  "main_batched ref_lib True 0 [nokey_example] empty_disk =
     Inl (AttributeError ''NoneType object has no attribute to_parquet'',
          empty_disk\<lparr>warnings := [(''diet_clean.csv'',
                                    ValueError ''diet_clean.csv: No SEQN column found.'')]\<rparr>) \<and>
   main_files ref_lib (Some ''in'') (Some ''out'') ''0'' True [nokey_example] empty_disk =
     Inl (SysExit ''No data merged. Exiting.'',
          empty_disk\<lparr>warnings := [(''diet_clean.csv'',
                                    ValueError ''diet_clean.csv: No SEQN column found.'')]\<rparr>) \<and>
   out_parquet (empty_disk\<lparr>warnings := [(''diet_clean.csv'',
                                    ValueError ''diet_clean.csv: No SEQN column found.'')]\<rparr>) = None"
  by code_simp

lemma rect_subset: "rect df \<Longrightarrow> set df' \<subseteq> set df \<Longrightarrow> rect df'"
  unfolding rect_iff by blast

lemma rect_same_lengths: "map (\<lambda>c. length (cvals c)) df' = map (\<lambda>c. length (cvals c)) df \<Longrightarrow> rect df \<Longrightarrow> rect df'"
proof -
  assume m: "map (\<lambda>c. length (cvals c)) df' = map (\<lambda>c. length (cvals c)) df" and r: "rect df"
  have im: "(\<lambda>c. length (cvals c)) ` set df' = (\<lambda>c. length (cvals c)) ` set df"
    using arg_cong [OF m, of set] by simp
  show "rect df'"
    unfolding rect_iff
  proof (intro ballI)
    fix c d assume "c \<in> set df'" and "d \<in> set df'"
    then have "length (cvals c) \<in> (\<lambda>c. length (cvals c)) ` set df"
      and "length (cvals d) \<in> (\<lambda>c. length (cvals c)) ` set df"
      unfolding im [symmetric] by blast+
    then obtain c' d' where c: "c' \<in> set df" and lc: "length (cvals c) = length (cvals c')"
      and d: "d' \<in> set df" and ld: "length (cvals d) = length (cvals d')"
      by (elim imageE)
    from r c d have "length (cvals c') = length (cvals d')" unfolding rect_iff by blast
    then show "length (cvals c) = length (cvals d)" unfolding lc ld .
  qed
qed

lemma rect_normalize_columns: "rect df \<Longrightarrow> rect (normalize_columns df)"
  by (rule rect_same_lengths) (simp_all add: normalize_columns_def comp_def)

lemma rect_drop_columns: "rect df \<Longrightarrow> rect (drop_columns df ns)"
  by (rule rect_subset) (auto simp: drop_columns_def)

lemma rect_optimize_dtypes: "rect df \<Longrightarrow> rect (optimize_dtypes lib df)"
proof (rule rect_same_lengths)
  have "length (cvals (optimize_column lib m r c)) = length (cvals c)" for m r and c :: "'a column"
    by (simp add: optimize_column_def downcast_float_def downcast_integer_def split: option.splits)
  then show "map (\<lambda>c. length (cvals c)) (optimize_dtypes lib df) = map (\<lambda>c. length (cvals c)) df"
    by (simp add: optimize_dtypes_def comp_def)
qed

lemma rect_suffix_non_key: "rect df \<Longrightarrow> rect (suffix_non_key df cn)"
  by (rule rect_same_lengths) (simp_all add: suffix_non_key_def comp_def)

lemma rect_take_rows: "rect (take_rows p df)"
  unfolding rect_iff by (auto simp: take_rows_def)

lemma length_masked:
  "length vs = length ws \<Longrightarrow> length (filter fst (zip m vs)) = length (filter fst (zip m ws))"
proof (induction m arbitrary: vs ws)
  case Nil
  then show ?case by simp
next
  case (Cons b m)
  then show ?case by (cases vs; cases ws) auto
qed

lemma rect_keep_rows:
  assumes "rect df"
  shows "rect (keep_rows m df)"
  unfolding rect_iff
proof (intro ballI)
  fix c d assume "c \<in> set (keep_rows m df)" and "d \<in> set (keep_rows m df)"
  then obtain c' d' where c: "c' \<in> set df" "cvals c = map snd (filter fst (zip m (cvals c')))"
    and d: "d' \<in> set df" "cvals d = map snd (filter fst (zip m (cvals d')))"
    unfolding keep_rows_def by auto
  from assms c(1) d(1) have "length (cvals c') = length (cvals d')" unfolding rect_iff by blast
  from length_masked [OF this, of m]
  show "length (cvals c) = length (cvals d)" unfolding c(2) d(2) length_map .
qed

lemma rect_two: "length (cvals a) = length (cvals b) \<Longrightarrow> rect [a, b]"
  by (simp add: rect_def nrows_def)

lemma rect_aggregate_meds: "rect (aggregate_meds lib df)"
  unfolding aggregate_meds_eq by (rule rect_two) simp


lemma load_columns_rect:
  assumes "load_columns f = Inr df" and "well_formed f"
  shows "rect df"
proof -
  from assms(1) obtain raw where raw: "parsed f = Inr raw"
    and df: "df = normalize_columns raw \<or> df = drop_columns (normalize_columns raw) (drop_cols (normalize_columns raw))"
    by (auto simp: load_columns_def read_table_def Let_def split: sum.splits if_splits)
  from raw assms(2) have "rect raw" by (simp add: well_formed_def)
  with df show ?thesis by (auto intro: rect_normalize_columns rect_drop_columns)
qed

lemma dedup_one_row_per_key:
  assumes "dedup lib df = Inr out" and "''SEQN'' \<in> set (columns df)" and "rect df"
  shows "one_row_per_key out"
proof (cases "distinct (key_vals df)")
  case True
  with assms show ?thesis by (simp add: dedup_def one_row_per_key_def)
next
  case False
  with assms(1) obtain p where out: "out = drop_duplicates (take_rows p df)"
    by (auto simp: dedup_def sort_values_def split: option.splits)
  have "''SEQN'' \<in> set (columns out)"
    unfolding out drop_duplicates_def by (simp add: columns_keep_rows columns_take_rows assms(2))
  moreover have "rect out"
    unfolding out drop_duplicates_def by (intro rect_keep_rows rect_take_rows)
  moreover have "distinct (key_vals out)"
    unfolding out using drop_duplicates_keys by blast
  ultimately show ?thesis by (simp add: one_row_per_key_def)
qed

lemma aggregate_meds_one_row_per_key: "one_row_per_key (aggregate_meds lib df)"
proof -
  note shape = aggregate_meds_shape [of lib df]
  from shape have "columns (aggregate_meds lib df) = [''SEQN'', ''RXDDRUG'']" by (elim conjE)
  moreover from shape have "key_vals (aggregate_meds lib df) = sort_keys lib (remdups (map fst
       (filter (\<lambda>(k, v). k \<noteq> NA \<and> v \<noteq> NA) (zip (vals df ''SEQN'') (vals df ''RXDDRUG'')))))"
    by (elim conjE)
  ultimately show ?thesis
    by (simp add: one_row_per_key_def distinct_sort_keys rect_aggregate_meds)
qed

lemma read_any_batched_one_row_per_key:
  assumes "read_any_batched lib f = Inr df" and "well_formed f"
  shows "one_row_per_key df"
proof -
  from assms(1) obtain d where d: "load_columns f = Inr d" and dd: "dedup lib d = Inr df"
    by (auto simp: read_any_batched_def split: sum.splits)
  from dedup_one_row_per_key [OF dd load_columns_has_key [OF d] load_columns_rect [OF d assms(2)]]
  show ?thesis .
qed

lemma read_any_files_one_row_per_key:
  assumes "read_any_files lib f = Inr df" and "well_formed f"
  shows "one_row_per_key df"
proof -
  from assms(1) obtain d where d: "load_columns f = Inr d"
    and dd: "df = aggregate_meds lib d \<or> dedup lib d = Inr df"
    by (auto simp: read_any_files_def split: sum.splits if_splits)
  from dd show ?thesis
  proof
    assume "df = aggregate_meds lib d"
    then show ?thesis by (simp add: aggregate_meds_one_row_per_key)
  next
    assume "dedup lib d = Inr df"
    from dedup_one_row_per_key [OF this load_columns_has_key [OF d] load_columns_rect [OF d assms(2)]]
    show ?thesis .
  qed
qed

lemma prepared_one_row_per_key:
  assumes "one_row_per_key df"
  shows "one_row_per_key (prepared lib f df)"
proof -
  have "''SEQN'' \<in> set (columns (prepared lib f df))"
    using assms unfolding prepared_def columns_prepared one_row_per_key_def by force
  with assms show ?thesis
    by (simp add: one_row_per_key_def prepared_def key_vals_prepared rect_suffix_non_key
          rect_optimize_dtypes)
qed


lemma first_loaded_Cons_Inr:
  "rd lib f = Inr df \<Longrightarrow> first_loaded rd lib (f # fs) = Some (prepared lib f df)"
  by (simp add: prepared_def)

lemma merge_loop_keeps_keys:
  assumes "lossless lib"
    and "\<forall>f \<in> set files. \<forall>df. rd lib f = Inr df \<longrightarrow> one_row_per_key df"
    and "merge_loop rd lib files st = Inr st'"
    and "accumulator st = Some a" and "rect a" and "''SEQN'' \<in> set (columns a)"
  shows "\<exists>a'. accumulator st' = Some a' \<and> key_vals a' = key_vals a \<and> nrows a' = nrows a"
  using assms(2-)
proof (induction files arbitrary: st a)
  case Nil
  then show ?case by simp
next
  case (Cons f fs)
  from Cons.prems(1) have good: "\<forall>f \<in> set fs. \<forall>df. rd lib f = Inr df \<longrightarrow> one_row_per_key df"
    by simp
  show ?case
  proof (cases "rd lib f")
    case (Inl e)
    from Cons.prems(2) have "merge_loop rd lib fs (st\<lparr>warnings := warnings st @ [(fname f, e)]\<rparr>) = Inr st'"
      by (simp add: loop_body_skip [of rd lib f e st, OF Inl])
    from Cons.IH [OF good this _ Cons.prems(4,5)] Cons.prems(3) show ?thesis by simp
  next
    case (Inr df)
    let ?p = "prepared lib f df"
    from Cons.prems(1) Inr have "one_row_per_key df" by simp
    from prepared_one_row_per_key [OF this] have p: "one_row_per_key ?p" .
    then have dist: "distinct (key_vals ?p)" by (simp add: one_row_per_key_def)
    show ?thesis
    proof (cases "merge a ?p")
      case bad: (Inl e)
      from loop_body_abort [of rd lib f df st a e, OF Inr Cons.prems(3) bad] Cons.prems(2)
      show ?thesis by simp
    next
      case (Inr m)
      let ?st2 = "st\<lparr>report_rows := report_rows st @
                     [\<lparr>rcomponent = component_from_filename (fstem f), rfile = fname f,
                       rrows = nrows ?p, rcols = length ?p\<rparr>],
                   tmp_parquet := Some (to_parquet lib m),
                   accumulator := Some (read_parquet lib (to_parquet lib m))\<rparr>"
      have "(case accumulator st of None \<Rightarrow> Inr ?p | Some acc \<Rightarrow> merge acc ?p) = Inr m"
        using Cons.prems(3) Inr by simp
      from loop_body_store [of rd lib f df st m, OF \<open>rd lib f = Inr df\<close> this]
      have body: "loop_body rd lib f st = Inr ?st2" .
      with Cons.prems(2) have rest: "merge_loop rd lib fs ?st2 = Inr st'" by simp
      from assms(1) have acc2: "accumulator ?st2 = Some m" by (simp add: lossless_def)
      from merge_rows [OF Inr dist] have m: "rect m" "nrows m = length (key_vals a)"
        "''SEQN'' \<in> set (columns m)" by simp_all
      from Cons.IH [OF good rest acc2 m(1) m(3)]
      obtain a' where a': "accumulator st' = Some a'" "key_vals a' = key_vals m" "nrows a' = nrows m"
        by blast
      from key_vals_merge [OF Inr dist] nrows_rect_key [OF Cons.prems(4,5)] m(2) a'
      show ?thesis by simp
    qed
  qed
qed

lemma merge_loop_anchor:
  assumes "lossless lib"
    and "\<forall>f \<in> set files. \<forall>df. rd lib f = Inr df \<longrightarrow> one_row_per_key df"
    and "merge_loop rd lib files st = Inr st'"
    and "accumulator st = None"
  shows "(first_loaded rd lib files = None \<and> accumulator st' = None) \<or>
         (\<exists>anchor a'. first_loaded rd lib files = Some anchor \<and> accumulator st' = Some a' \<and>
              key_vals a' = key_vals anchor \<and> nrows a' = nrows anchor)"
  using assms(2-)
proof (induction files arbitrary: st)
  case Nil
  then show ?case by simp
next
  case (Cons f fs)
  from Cons.prems(1) have good: "\<forall>f \<in> set fs. \<forall>df. rd lib f = Inr df \<longrightarrow> one_row_per_key df"
    by simp
  show ?case
  proof (cases "rd lib f")
    case (Inl e)
    from Cons.prems(2) have "merge_loop rd lib fs (st\<lparr>warnings := warnings st @ [(fname f, e)]\<rparr>) = Inr st'"
      by (simp add: loop_body_skip [of rd lib f e st, OF Inl])
    from Cons.IH [OF good this] Cons.prems(3) Inl show ?thesis by simp
  next
    case (Inr df)
    let ?p = "prepared lib f df"
    let ?st2 = "st\<lparr>report_rows := report_rows st @
                     [\<lparr>rcomponent = component_from_filename (fstem f), rfile = fname f,
                       rrows = nrows ?p, rcols = length ?p\<rparr>],
                   tmp_parquet := Some (to_parquet lib ?p),
                   accumulator := Some (read_parquet lib (to_parquet lib ?p))\<rparr>"
    from Cons.prems(1) Inr have "one_row_per_key df" by simp
    from prepared_one_row_per_key [OF this] have p: "one_row_per_key ?p" .
    have "(case accumulator st of None \<Rightarrow> Inr ?p | Some acc \<Rightarrow> merge acc ?p) = Inr ?p"
      using Cons.prems(3) by simp
    from loop_body_store [of rd lib f df st ?p, OF Inr this]
    have body: "loop_body rd lib f st = Inr ?st2" .
    with Cons.prems(2) have rest: "merge_loop rd lib fs ?st2 = Inr st'" by simp
    from assms(1) have acc2: "accumulator ?st2 = Some ?p" by (simp add: lossless_def)
    from p have "rect ?p" "''SEQN'' \<in> set (columns ?p)" by (simp_all add: one_row_per_key_def)
    from merge_loop_keeps_keys [OF assms(1) good rest acc2 this]
      first_loaded_Cons_Inr [of rd lib f df fs, OF Inr]
    show ?thesis by simp
  qed
qed


lemma well_formed_files:
  assumes "list_all well_formed files"
  shows "\<forall>f \<in> set files. \<forall>df. read_any_batched lib f = Inr df \<longrightarrow> one_row_per_key df"
    and "\<forall>f \<in> set files. \<forall>df. read_any_files lib f = Inr df \<longrightarrow> one_row_per_key df"
proof -
  from assms have wf: "well_formed f" if "f \<in> set files" for f
    using that by (simp add: list_all_iff)
  show "\<forall>f \<in> set files. \<forall>df. read_any_batched lib f = Inr df \<longrightarrow> one_row_per_key df"
    using read_any_batched_one_row_per_key [of lib] wf by blast
  show "\<forall>f \<in> set files. \<forall>df. read_any_files lib f = Inr df \<longrightarrow> one_row_per_key df"
    using read_any_files_one_row_per_key [of lib] wf by blast
qed

text \<open>
  C1. In every run that ends with a final table, the table has the key column of the
  anchor, the first component that loaded: the same keys in the same order, hence the same
  number of rows, however many components were merged after it. Each merge is a left join
  on SEQN with a component that has one row per key, as every loaded component has: the
  key column of the result is the key column of the accumulator, so every accumulator key
  is kept exactly once and a key that only the component has does not appear. The frames
  the readers return are rectangular, and the Parquet checkpoint gives back what was
  written.
\<close>

theorem left_join_row_invariant:
  assumes "lossless lib" and "list_all well_formed files"
  shows "(main_batched lib base_exists csv files st0 = Inr st \<longrightarrow>
           (\<exists>anchor final. first_loaded read_any_batched lib files = Some anchor \<and>
              accumulator st = Some final \<and> out_parquet st = Some (to_parquet lib final) \<and>
              nrows final = nrows anchor \<and> key_vals final = key_vals anchor)) \<and>
         (main_files lib input_dir output_dir csv_opt base_exists files st0 = Inr st \<longrightarrow>
           (\<exists>anchor final. first_loaded read_any_files lib files = Some anchor \<and>
              accumulator st = Some final \<and> out_parquet st = Some (to_parquet lib final) \<and>
              nrows final = nrows anchor \<and> key_vals final = key_vals anchor)) \<and>
         (\<forall>acc df m. one_row_per_key df \<longrightarrow> merge acc df = Inr m \<longrightarrow> key_vals m = key_vals acc) \<and>
         (\<forall>f \<in> set files. \<forall>df. read_any_batched lib f = Inr df \<or> read_any_files lib f = Inr df \<longrightarrow>
              one_row_per_key (prepared lib f df))"
proof (intro conjI impI allI ballI)
  let ?st = "st0\<lparr>accumulator := None, report_rows := [], warnings := []\<rparr>"
  assume run: "main_batched lib base_exists csv files st0 = Inr st"
  then obtain st1 acc where loop: "merge_loop read_any_batched lib files ?st = Inr st1"
    and acc: "accumulator st1 = Some acc"
    and st: "accumulator st = Some acc" "out_parquet st = Some (to_parquet lib acc)"
    by (auto simp: main_batched_def Let_def split: if_splits sum.splits option.splits)
  have "accumulator ?st = None" by simp
  from merge_loop_anchor [OF assms(1) well_formed_files(1) [OF assms(2)] loop this] acc st
  show "\<exists>anchor final. first_loaded read_any_batched lib files = Some anchor \<and>
              accumulator st = Some final \<and> out_parquet st = Some (to_parquet lib final) \<and>
              nrows final = nrows anchor \<and> key_vals final = key_vals anchor"
    by auto
next
  let ?st = "st0\<lparr>accumulator := None, report_rows := [], warnings := []\<rparr>"
  assume run: "main_files lib input_dir output_dir csv_opt base_exists files st0 = Inr st"
  then obtain st1 acc where loop: "merge_loop read_any_files lib files ?st = Inr st1"
    and acc: "accumulator st1 = Some acc"
    and st: "accumulator st = Some acc" "out_parquet st = Some (to_parquet lib acc)"
    by (auto simp: main_files_def Let_def split: if_splits sum.splits option.splits)
  have "accumulator ?st = None" by simp
  from merge_loop_anchor [OF assms(1) well_formed_files(2) [OF assms(2)] loop this] acc st
  show "\<exists>anchor final. first_loaded read_any_files lib files = Some anchor \<and>
              accumulator st = Some final \<and> out_parquet st = Some (to_parquet lib final) \<and>
              nrows final = nrows anchor \<and> key_vals final = key_vals anchor"
    by auto
next
  fix acc df m
  assume "one_row_per_key df" and "merge acc df = Inr m"
  then show "key_vals m = key_vals acc"
    using key_vals_merge [of acc df m] by (simp add: one_row_per_key_def)
next
  fix f df
  assume "f \<in> set files" and "read_any_batched lib f = Inr df \<or> read_any_files lib f = Inr df"
  with well_formed_files [OF assms(2), of lib] have "one_row_per_key df" by blast
  then show "one_row_per_key (prepared lib f df)" by (rule prepared_one_row_per_key)
qed


theorem left_join_row_invariant_witness:
  "\<exists>st final.
     main_files ref_lib (Some ''in'') (Some ''out'') ''0'' True
        [demo_example, nokey_example, rx_null_example, bmx_example] empty_disk = Inr st \<and>
     first_loaded read_any_files ref_lib [demo_example, nokey_example, rx_null_example, bmx_example] =
        Some [\<lparr>cname = ''SEQN'', ctype = Int64, cvals = [IntV 1, IntV 2, IntV 3]\<rparr>,
              \<lparr>cname = ''AGE__demographics'', ctype = Int8, cvals = [IntV 30, IntV 41, IntV 52]\<rparr>] \<and>
     accumulator st = Some final \<and> nrows final = 3 \<and> key_vals final = [IntV 1, IntV 2, IntV 3]"
proof -
  let ?files = "[demo_example, nokey_example, rx_null_example, bmx_example]"
  let ?anchor = "[\<lparr>cname = ''SEQN'', ctype = Int64, cvals = [IntV 1, IntV 2, IntV 3 :: int cell]\<rparr>,
              \<lparr>cname = ''AGE__demographics'', ctype = Int8, cvals = [IntV 30, IntV 41, IntV 52]\<rparr>]"
  have wf: "list_all well_formed ?files" by code_simp
  have "\<not> isl (main_files ref_lib (Some ''in'') (Some ''out'') ''0'' True ?files empty_disk)"
    by code_simp
  then obtain st where run:
    "main_files ref_lib (Some ''in'') (Some ''out'') ''0'' True ?files empty_disk = Inr st"
    by (cases "main_files ref_lib (Some ''in'') (Some ''out'') ''0'' True ?files empty_disk") auto
  have fl: "first_loaded read_any_files ref_lib ?files = Some ?anchor" by code_simp
  have an: "nrows ?anchor = 3" "key_vals ?anchor = [IntV 1, IntV 2, IntV 3]" by code_simp+
  from left_join_row_invariant [OF lossless_ref_lib wf, where input_dir = "Some ''in''"
      and output_dir = "Some ''out''" and csv_opt = "''0''" and base_exists = True
      and ?st0.0 = empty_disk and st = st and csv = 0] run
  obtain anchor final where "first_loaded read_any_files ref_lib ?files = Some anchor"
    and "accumulator st = Some final" and "nrows final = nrows anchor"
    and "key_vals final = key_vals anchor"
    by blast
  with fl an run show ?thesis by auto
qed


















text \<open>
  A table with a repeated column name keeps it through every later join. With a
  checkpoint that gives back what was written, a run in which some checkpoint had a
  repeated name therefore cannot end with a table the writer takes: taking the write of
  the checkpoint to succeed adds no run that ends well.
\<close>

lemma columns_left_part:
  "columns (map (left_part ov pairs) left) =
     map (\<lambda>n. if n \<in> set ov then n @ ''_x'' else n) (columns left)"
  by (simp add: columns_def left_part_def comp_def)

lemma merge_keeps_repeated_names:
  assumes "merge left right = Inr m" and "\<not> distinct (columns left)"
  shows "\<not> distinct (columns m)"
proof -
  from assms(1) obtain lk rk where "column left ''SEQN'' = Some lk" and "column right ''SEQN'' = Some rk"
    and "\<not> keys_incompatible lk rk"
    and m: "m = map (left_part (overlap left right) (join_pairs (cvals lk) (cvals rk))) left @
             map (right_part (overlap left right) (join_pairs (cvals lk) (cvals rk)))
                 (filter (\<lambda>c. cname c \<noteq> ''SEQN'') right)"
    by (rule merge_Inr)
  have "columns m =
      columns (map (left_part (overlap left right) (join_pairs (cvals lk) (cvals rk))) left) @
      columns (map (right_part (overlap left right) (join_pairs (cvals lk) (cvals rk)))
                 (filter (\<lambda>c. cname c \<noteq> ''SEQN'') right))"
    unfolding m by (simp add: columns_def)
  moreover from assms(2) have
    "\<not> distinct (columns (map (left_part (overlap left right) (join_pairs (cvals lk) (cvals rk))) left))"
    unfolding columns_left_part by (simp add: distinct_map)
  ultimately show ?thesis by simp
qed




text \<open>
  What becomes of two components with one namespaced name. With the two files above the
  join tells the columns apart by its suffixes. With a third component the renamed column
  can meet a column the accumulator has already: when both are on the accumulator's side
  the join refuses (MergeError); when one is on each side the join lets them through, and
  it is the Parquet writer that refuses the table.
\<close>

lemma colliding_names_renamed:
  "map_sum fst (\<lambda>st. map_option columns (accumulator st))
     (main_files ref_lib (Some ''in'') (Some ''out'') ''0'' True
        [one_column_file ''_c_clean'' ''A'', one_column_file ''c_clean'' ''A_''] empty_disk)
     = Inr (Some [''SEQN'', ''A___c_x'', ''A___c_y''])"
  by code_simp

lemma colliding_names_merge_error:
  "map_sum fst (\<lambda>st. map_option columns (accumulator st))
     (main_files ref_lib (Some ''in'') (Some ''out'') ''0'' True
        [one_column_file ''_q_clean'' ''A'', one_column_file ''_q_x_clean'' ''A'',
         one_column_file ''q_clean'' ''A_''] empty_disk)
     = Inl (MergeError ''Passing suffixes which cause duplicate columns is not allowed'')"
  by code_simp

lemma colliding_names_writer_refuses:
  "map_sum fst (\<lambda>st. map_option columns (accumulator st))
     (main_files ref_lib (Some ''in'') (Some ''out'') ''0'' True
        [one_column_file ''_c_clean'' ''A'', one_column_file ''_c_y_clean'' ''A'',
         one_column_file ''c_clean'' ''A_''] empty_disk)
     = Inl (ValueError ''Duplicate column names found'')"
  by code_simp



end
